theory Spec2Isabelle
  imports Complex_Main
begin

section \<open>Data model (src/types/index.ts)\<close>

text \<open>
  A JavaScript \<open>number\<close> that results from a division is either finite or one of the
  three special values. Finite values are exact rationals here: prices are the integers
  that \<open>parseInt\<close> returns and thresholds are short decimals, so the comparisons the
  code makes come out as in exact arithmetic.
\<close>

datatype number = Num rat | PosInf | NegInf | NaN

text \<open>A thrown value: an \<open>Error\<close> instance with its message, or any other value.\<close>

datatype exn = Error string | Thrown

datatype marketplace = Facebook | Craigslist | Ebay

record SlackConfig =
  slack_enabled :: bool
  webhook :: string

record TelegramConfig =
  telegram_enabled :: bool
  botToken :: string
  chatId :: string

record PushoverConfig =
  pushover_enabled :: bool
  userKey :: string
  appToken :: string

record NotificationConfig =
  slack :: "SlackConfig option"
  telegram :: "TelegramConfig option"
  pushover :: "PushoverConfig option"

record ScraperConfig =
  config_id :: string
  name :: string
  enabled :: bool
  marketplace :: marketplace
  query :: string
  search_location :: string
  radius :: int
  priceMin :: "int option"
  priceMax :: "int option"
  includeKeywords :: "string list option"
  excludeKeywords :: "string list option"
  scrollDepth :: nat
  priceDropThreshold :: rat
  notifications :: NotificationConfig

text \<open>
  \<open>firstSeen\<close> and \<open>lastSeen\<close> are ISO strings in the source; the code only copies
  them, so they stay strings. \<open>expiresAt\<close> is a Unix time in seconds.
\<close>

record Listing =
  scraperId :: string
  listingId :: string
  title :: string
  price :: int
  previousPrice :: "int option"
  location :: string
  url :: string
  imageUrl :: "string option"
  firstSeen :: string
  lastSeen :: string
  expiresAt :: int

record ScrapingResult =
  result_scraperId :: string
  success :: bool
  error :: "string option"
  newListings :: "Listing list"
  priceDrops :: "Listing list"
  totalFound :: nat
  executionTime :: int

datatype notification_type = New_listing | Price_drop

record NotificationPayload =
  payload_type :: notification_type
  listing :: Listing
  scraper :: ScraperConfig
  priceDropPercentage :: "number option"

text \<open>The secrets bundle is a parsed JSON object: a lookup from key to string.\<close>

type_synonym SecretsConfig = "string \<rightharpoonup> string"

record AppConfig =
  scrapers :: "ScraperConfig list"

section \<open>Strings\<close>

text \<open>\<open>s.includes(p)\<close>: \<open>p\<close> occurs somewhere in \<open>s\<close>.\<close>

fun str_includes :: "string \<Rightarrow> string \<Rightarrow> bool" where
  "str_includes [] p = (p = [])"
| "str_includes (c # cs) p = (take (length p) (c # cs) = p \<or> str_includes cs p)"

text \<open>
  \<open>s.replace(p, r)\<close> with a string pattern: only the first (leftmost) occurrence of
  \<open>p\<close> is replaced; without an occurrence \<open>s\<close> is returned as it is.
\<close>

fun replace :: "string \<Rightarrow> string \<Rightarrow> string \<Rightarrow> string" where
  "replace [] p r = (if p = [] then r else [])"
| "replace (c # cs) p r =
     (if take (length p) (c # cs) = p then r @ drop (length p) (c # cs)
      else c # replace cs p r)"

section \<open>Credential lookup (NotificationService.getSecretValue)\<close>

text \<open>
  The secrets bundle is the object \<open>JSON.parse\<close> returns: its own entries, and behind
  them the members every object inherits from \<open>Object.prototype\<close>. Reading
  \<open>secrets[k]\<close> gives the own entry under \<open>k\<close> when there is one, else the inherited
  member of that name when there is one, else \<open>undefined\<close>. An own entry is a string;
  an inherited member is a function (for \<open>__proto__\<close> the prototype object), written
  \<open>Inherited\<close> with its name.
\<close>

datatype secret_value = Text string | Inherited string

definition object_prototype_members :: "string list" where
  "object_prototype_members =
     [''constructor'', ''__defineGetter__'', ''__defineSetter__'', ''hasOwnProperty'',
      ''__lookupGetter__'', ''__lookupSetter__'', ''isPrototypeOf'', ''propertyIsEnumerable'',
      ''toString'', ''valueOf'', ''__proto__'', ''toLocaleString'']"

definition property_lookup :: "SecretsConfig \<Rightarrow> string \<Rightarrow> secret_value option" where
  "property_lookup secrets k =
     (case secrets k of
        Some v \<Rightarrow> Some (Text v)
      | None \<Rightarrow> (if k \<in> set object_prototype_members then Some (Inherited k) else None))"

text \<open>
  \<open>this.secrets[secretKey] || ''\<close>: \<open>undefined\<close> and the empty string both give the
  empty string; every other value, a function included, is returned as it is.
\<close>

definition getSecretValue :: "SecretsConfig \<Rightarrow> string \<Rightarrow> secret_value" where
  "getSecretValue secrets key =
     (if str_includes key ''-from-secrets''
      then (let secretKey = replace key ''-from-secrets'' ''''
            in case property_lookup secrets secretKey of
                 None \<Rightarrow> Text ''''
               | Some (Text v) \<Rightarrow> (if v = '''' then Text '''' else Text v)
               | Some (Inherited m) \<Rightarrow> Inherited m)
      else Text key)"

text \<open>
  The reading of the specification: the marker is a suffix, and it is the suffix that is
  taken off.
\<close>

definition strip_suffix :: "string \<Rightarrow> string \<Rightarrow> string" where
  "strip_suffix s suf =
     (if length suf \<le> length s \<and> drop (length s - length suf) s = suf
      then take (length s - length suf) s else s)"

section \<open>The environment\<close>

text \<open>
  Everything outside the process is a field of the \<open>world\<close>: the DynamoDB table, the
  clock, and the outcome of every external call. The outcomes are inputs, so that each
  awaited call that can reject in the source is a branch here.
  \<^item> \<open>timeline\<close> and \<open>reads\<close>: the \<open>n\<close>-th evaluation of \<open>Date.now()\<close> returns
    \<open>timeline n\<close> (milliseconds).
  \<^item> \<open>dynamo\<close>: the outcomes of the successive \<open>docClient.send\<close> calls, in call order;
    when the list is used up every further call succeeds. \<open>SendAfterReclaim\<close> is a call
    that succeeds after the table's TTL process has deleted the records whose
    \<open>expiresAt\<close> has passed.
  \<^item> \<open>playwright\<close>: the outcomes of the successive browser calls (\<open>chromium.launch\<close>,
    \<open>newPage\<close>, \<open>page.close\<close>, \<open>browser.close\<close>), in call order; \<open>None\<close> is success.
  \<^item> \<open>marketplace_page\<close>: what the page work of \<open>scrape\<close> (cookies, navigation, DOM
    extraction, filters) yields for a watcher id: the listings, or the error thrown.
  \<^item> \<open>axios\<close>: the outcome of the HTTP post to a channel for a listing id.
  \<^item> \<open>ssm\<close>, \<open>secretsManager\<close>: what \<open>getConfig\<close> and \<open>getSecrets\<close> resolve or reject to.
  \<^item> \<open>log\<close>: the effects performed so far, oldest first.
\<close>

datatype channel = Slack | Telegram | Pushover

datatype send_outcome = SendOk | SendThrows exn | SendAfterReclaim

datatype event =
    BrowserLaunched
  | BrowserCloseCalled
  | PageOpened
  | PageCloseCalled
  | PageWork string
  | HttpPost channel "secret_value list" notification_type Listing "number option"
  | ConsoleError string
  | ExecutingBatch nat "string list"
  | Cooldown nat

record world =
  table :: "(string \<times> string) \<rightharpoonup> Listing"
  timeline :: "nat \<Rightarrow> int"
  reads :: nat
  dynamo :: "send_outcome list"
  playwright :: "exn option list"
  marketplace_page :: "string \<Rightarrow> exn + Listing list"
  axios :: "channel \<Rightarrow> string \<Rightarrow> exn option"
  ssm :: "exn + AppConfig"
  secretsManager :: "exn + SecretsConfig"
  log :: "event list"

definition emit :: "event \<Rightarrow> world \<Rightarrow> world" where
  "emit e w = w\<lparr>log := log w @ [e]\<rparr>"

definition console_error :: "string \<Rightarrow> world \<Rightarrow> world" where
  "console_error msg w = emit (ConsoleError msg) w"

definition Date_now :: "world \<Rightarrow> int \<times> world" where
  "Date_now w = (timeline w (reads w), w\<lparr>reads := Suc (reads w)\<rparr>)"

text \<open>The events a computation added: the log of the later world without the earlier one.\<close>

definition emitted :: "world \<Rightarrow> world \<Rightarrow> event list" where
  "emitted w w' = drop (length (log w)) (log w')"

section \<open>JavaScript arithmetic\<close>

text \<open>Division of two finite numbers; a zero divisor gives an infinity or NaN.\<close>

definition js_div :: "rat \<Rightarrow> rat \<Rightarrow> number" where
  "js_div a b =
     (if b \<noteq> 0 then Num (a / b)
      else if 0 < a then PosInf else if a < 0 then NegInf else NaN)"

text \<open>\<open>x >= t\<close> for a finite \<open>t\<close>: false for NaN.\<close>

definition js_ge :: "number \<Rightarrow> rat \<Rightarrow> bool" where
  "js_ge x t = (case x of Num q \<Rightarrow> t \<le> q | PosInf \<Rightarrow> True | NegInf \<Rightarrow> False | NaN \<Rightarrow> False)"

text \<open>\<open>x * 100\<close>.\<close>

definition js_times100 :: "number \<Rightarrow> number" where
  "js_times100 x = (case x of Num q \<Rightarrow> Num (q * 100) | PosInf \<Rightarrow> PosInf | NegInf \<Rightarrow> NegInf | NaN \<Rightarrow> NaN)"

section \<open>Item Store (DatabaseService)\<close>

definition ttl_seconds :: int where
  "ttl_seconds = 30 * 24 * 60 * 60"

definition reclaim :: "int \<Rightarrow> ((string \<times> string) \<rightharpoonup> Listing) \<Rightarrow> ((string \<times> string) \<rightharpoonup> Listing)" where
  "reclaim now_s t =
     (\<lambda>k. case t k of None \<Rightarrow> None
          | Some l \<Rightarrow> (if expiresAt l \<le> now_s then None else Some l))"

definition docClient_send :: "world \<Rightarrow> exn option \<times> world" where
  "docClient_send w =
     (case dynamo w of
        [] \<Rightarrow> (None, w)
      | SendOk # rs \<Rightarrow> (None, w\<lparr>dynamo := rs\<rparr>)
      | SendThrows e # rs \<Rightarrow> (Some e, w\<lparr>dynamo := rs\<rparr>)
      | SendAfterReclaim # rs \<Rightarrow>
          (None, w\<lparr>dynamo := rs, table := reclaim (timeline w (reads w) div 1000) (table w)\<rparr>))"

definition getListing :: "string \<Rightarrow> string \<Rightarrow> world \<Rightarrow> (exn + Listing option) \<times> world" where
  "getListing sid lid w =
     (case docClient_send w of
        (Some e, w1) \<Rightarrow> (Inl e, console_error ''Failed to get listing'' w1)
      | (None, w1) \<Rightarrow> (Inr (table w1 (sid, lid)), w1))"

definition saveListing :: "Listing \<Rightarrow> world \<Rightarrow> (exn + unit) \<times> world" where
  "saveListing l w =
     (let (now, w1) = Date_now w;
          item = l\<lparr>expiresAt := now div 1000 + ttl_seconds\<rparr>
      in case docClient_send w1 of
           (Some e, w2) \<Rightarrow> (Inl e, console_error ''Failed to save listing'' w2)
         | (None, w2) \<Rightarrow>
             (Inr (), w2\<lparr>table := (table w2)((scraperId l, listingId l) \<mapsto> item)\<rparr>))"

text \<open>
  The \<open>UpdateCommand\<close> sets four attributes of the item under the key and returns the
  item as it is afterwards (\<open>ALL_NEW\<close>). DynamoDB creates the item when the key has
  none; such an item has the key and the four attributes only, and the other fields are
  left empty here.
\<close>

definition update_item ::
  "string \<Rightarrow> string \<Rightarrow> int \<Rightarrow> int \<Rightarrow> string \<Rightarrow> int \<Rightarrow> Listing option \<Rightarrow> Listing" where
  "update_item sid lid newPrice prevPrice seen expires old =
     (case old of
        Some l \<Rightarrow> l\<lparr>price := newPrice, previousPrice := Some prevPrice,
                    lastSeen := seen, expiresAt := expires\<rparr>
      | None \<Rightarrow> \<lparr>scraperId = sid, listingId = lid, title = [], price = newPrice,
                  previousPrice = Some prevPrice, location = [], url = [],
                  imageUrl = None, firstSeen = [], lastSeen = seen, expiresAt = expires\<rparr>)"

definition updateListingPrice ::
  "string \<Rightarrow> string \<Rightarrow> int \<Rightarrow> string \<Rightarrow> world \<Rightarrow> (exn + Listing option) \<times> world" where
  "updateListingPrice sid lid newPrice seen w =
     (case getListing sid lid w of
        (Inl e, w1) \<Rightarrow> (Inl e, console_error ''Failed to update listing price'' w1)
      | (Inr None, w1) \<Rightarrow> (Inr None, w1)
      | (Inr (Some currentListing), w1) \<Rightarrow>
          (let (now, w2) = Date_now w1
           in case docClient_send w2 of
                (Some e, w3) \<Rightarrow> (Inl e, console_error ''Failed to update listing price'' w3)
              | (None, w3) \<Rightarrow>
                  (let updated = update_item sid lid newPrice (price currentListing) seen
                                   (now div 1000 + ttl_seconds) (table w3 (sid, lid))
                   in (Inr (Some updated), w3\<lparr>table := (table w3)((sid, lid) \<mapsto> updated)\<rparr>))))"

section \<open>Notification Fan-out (NotificationService)\<close>

text \<open>
  Each channel function builds its credentials, posts, and rethrows what the post throws
  after logging it. Message formatting is left to the Channel Sender; the post is logged
  with the credentials and the payload fields the message is built from. A channel
  function is only called when its configuration is present; reading a field of an
  absent one is the TypeError of the source's \<open>!\<close>.
\<close>

definition sendSlackNotification ::
  "SecretsConfig \<Rightarrow> NotificationPayload \<Rightarrow> world \<Rightarrow> (exn + unit) \<times> world" where
  "sendSlackNotification secrets payload w =
     (case slack (notifications (scraper payload)) of
        None \<Rightarrow> (Inl (Error ''TypeError''),
                  console_error ''Failed to send Slack notification'' w)
      | Some c \<Rightarrow>
          (let webhookUrl = getSecretValue secrets (webhook c);
               w1 = emit (HttpPost Slack [webhookUrl] (payload_type payload)
                            (listing payload) (priceDropPercentage payload)) w
           in case axios w Slack (listingId (listing payload)) of
                Some e \<Rightarrow> (Inl e, console_error ''Failed to send Slack notification'' w1)
              | None \<Rightarrow> (Inr (), w1)))"

definition sendTelegramNotification ::
  "SecretsConfig \<Rightarrow> NotificationPayload \<Rightarrow> world \<Rightarrow> (exn + unit) \<times> world" where
  "sendTelegramNotification secrets payload w =
     (case telegram (notifications (scraper payload)) of
        None \<Rightarrow> (Inl (Error ''TypeError''),
                  console_error ''Failed to send Telegram notification'' w)
      | Some c \<Rightarrow>
          (let token = getSecretValue secrets (botToken c);
               chat = getSecretValue secrets (chatId c);
               w1 = emit (HttpPost Telegram [token, chat] (payload_type payload)
                            (listing payload) (priceDropPercentage payload)) w
           in case axios w Telegram (listingId (listing payload)) of
                Some e \<Rightarrow> (Inl e, console_error ''Failed to send Telegram notification'' w1)
              | None \<Rightarrow> (Inr (), w1)))"

definition sendPushoverNotification ::
  "SecretsConfig \<Rightarrow> NotificationPayload \<Rightarrow> world \<Rightarrow> (exn + unit) \<times> world" where
  "sendPushoverNotification secrets payload w =
     (case pushover (notifications (scraper payload)) of
        None \<Rightarrow> (Inl (Error ''TypeError''),
                  console_error ''Failed to send Pushover notification'' w)
      | Some c \<Rightarrow>
          (let user = getSecretValue secrets (userKey c);
               token = getSecretValue secrets (appToken c);
               w1 = emit (HttpPost Pushover [user, token] (payload_type payload)
                            (listing payload) (priceDropPercentage payload)) w
           in case axios w Pushover (listingId (listing payload)) of
                Some e \<Rightarrow> (Inl e, console_error ''Failed to send Pushover notification'' w1)
              | None \<Rightarrow> (Inr (), w1)))"

text \<open>\<open>scraper.notifications.slack?.enabled\<close> and its two siblings.\<close>

definition channel_enabled :: "NotificationConfig \<Rightarrow> channel \<Rightarrow> bool" where
  "channel_enabled n c =
     (case c of
        Slack \<Rightarrow> (case slack n of None \<Rightarrow> False | Some x \<Rightarrow> slack_enabled x)
      | Telegram \<Rightarrow> (case telegram n of None \<Rightarrow> False | Some x \<Rightarrow> telegram_enabled x)
      | Pushover \<Rightarrow> (case pushover n of None \<Rightarrow> False | Some x \<Rightarrow> pushover_enabled x))"

text \<open>
  The three \<open>if\<close> blocks push one promise per enabled channel; the result is the list of
  their settled outcomes, in the order pushed.
\<close>

definition push_channels ::
  "SecretsConfig \<Rightarrow> NotificationPayload \<Rightarrow> world \<Rightarrow> (exn + unit) list \<times> world" where
  "push_channels secrets payload w =
     (let n = notifications (scraper payload);
          (p1, w1) = (if channel_enabled n Slack
                      then (let (r, w') = sendSlackNotification secrets payload w in ([r], w'))
                      else ([], w));
          (p2, w2) = (if channel_enabled n Telegram
                      then (let (r, w') = sendTelegramNotification secrets payload w1 in (p1 @ [r], w'))
                      else (p1, w1));
          (p3, w3) = (if channel_enabled n Pushover
                      then (let (r, w') = sendPushoverNotification secrets payload w2 in (p2 @ [r], w'))
                      else (p2, w2))
      in (p3, w3))"

text \<open>\<open>results.forEach\<close>: one error line per rejected outcome.\<close>

fun report_rejected :: "(exn + unit) list \<Rightarrow> world \<Rightarrow> world" where
  "report_rejected [] w = w"
| "report_rejected (Inl e # rs) w = report_rejected rs (console_error ''Notification failed'' w)"
| "report_rejected (Inr u # rs) w = report_rejected rs w"

definition NotificationService_sendNotifications ::
  "SecretsConfig \<Rightarrow> NotificationPayload \<Rightarrow> world \<Rightarrow> (exn + unit) \<times> world" where
  "NotificationService_sendNotifications secrets payload w =
     (let (results, w1) = push_channels secrets payload w
      in (Inr (), report_rejected results w1))"

section \<open>Source Collector (FacebookMarketplaceScraper)\<close>

record FacebookMarketplaceScraper =
  browser :: bool

definition playwright_call :: "world \<Rightarrow> exn option \<times> world" where
  "playwright_call w =
     (case playwright w of [] \<Rightarrow> (None, w) | r # rs \<Rightarrow> (r, w\<lparr>playwright := rs\<rparr>))"

definition initialize ::
  "FacebookMarketplaceScraper \<Rightarrow> world \<Rightarrow> (exn + unit) \<times> FacebookMarketplaceScraper \<times> world" where
  "initialize s w =
     (case playwright_call w of
        (Some e, w1) \<Rightarrow> (Inl e, s, w1)
      | (None, w1) \<Rightarrow> (Inr (), s\<lparr>browser := True\<rparr>, emit BrowserLaunched w1))"

definition cleanup ::
  "FacebookMarketplaceScraper \<Rightarrow> world \<Rightarrow> (exn + unit) \<times> FacebookMarketplaceScraper \<times> world" where
  "cleanup s w =
     (if browser s
      then (case playwright_call (emit BrowserCloseCalled w) of
              (Some e, w1) \<Rightarrow> (Inl e, s, w1)
            | (None, w1) \<Rightarrow> (Inr (), s\<lparr>browser := False\<rparr>, w1))
      else (Inr (), s, w))"

text \<open>
  \<open>scrape\<close>: open a page, do the page work inside \<open>try\<close>, and close the page in
  \<open>finally\<close>; a rejected \<open>page.close\<close> replaces the outcome of the body. The listings
  carry the watcher's id and location and \<open>expiresAt = 0\<close>.
\<close>

definition scrape ::
  "FacebookMarketplaceScraper \<Rightarrow> ScraperConfig \<Rightarrow> string option \<Rightarrow> world
     \<Rightarrow> (exn + Listing list) \<times> FacebookMarketplaceScraper \<times> world" where
  "scrape s config cookies w =
     (case (if browser s then (Inr (), s, w) else initialize s w) of
        (Inl e, s1, w1) \<Rightarrow> (Inl e, s1, w1)
      | (Inr u, s1, w1) \<Rightarrow>
          (case playwright_call w1 of
             (Some e, w2) \<Rightarrow> (Inl e, s1, w2)
           | (None, w2) \<Rightarrow>
               (let w3 = emit (PageWork (config_id config)) (emit PageOpened w2);
                    body = (case marketplace_page w3 (config_id config) of
                              Inl e \<Rightarrow> Inl e
                            | Inr ls \<Rightarrow>
                                Inr (map (\<lambda>l. l\<lparr>scraperId := config_id config,
                                                  location := search_location config,
                                                  expiresAt := 0\<rparr>) ls));
                    w4 = (case body of
                            Inl e \<Rightarrow> console_error ''Error scraping Facebook Marketplace'' w3
                          | Inr ls \<Rightarrow> w3)
                in case playwright_call (emit PageCloseCalled w4) of
                     (Some e, w5) \<Rightarrow> (Inl e, s1, w5)
                   | (None, w5) \<Rightarrow> (body, s1, w5))))"

section \<open>Settings Provider (ConfigService)\<close>

text \<open>
  \<open>getConfig\<close> and \<open>getSecrets\<close> resolve to what the parameter store and the secrets
  manager hold, or reject after logging; the five-minute cache in front of them only
  saves repeated reads and is left out.
\<close>

definition getConfig :: "world \<Rightarrow> (exn + AppConfig) \<times> world" where
  "getConfig w =
     (case ssm w of
        Inl e \<Rightarrow> (Inl e, console_error ''Failed to load configuration'' w)
      | Inr c \<Rightarrow> (Inr c, w))"

definition getSecrets :: "world \<Rightarrow> (exn + SecretsConfig) \<times> world" where
  "getSecrets w =
     (case secretsManager w of
        Inl e \<Rightarrow> (Inl e, console_error ''Failed to load secrets'' w)
      | Inr c \<Rightarrow> (Inr c, w))"

definition getEnabledScrapers :: "world \<Rightarrow> (exn + ScraperConfig list) \<times> world" where
  "getEnabledScrapers w =
     (case getConfig w of
        (Inl e, w1) \<Rightarrow> (Inl e, w1)
      | (Inr config, w1) \<Rightarrow> (Inr (filter enabled (scrapers config)), w1))"

section \<open>Watch Runner (ScraperService)\<close>

text \<open>
  The body of the loop of \<open>processListings\<close> for one listing, with its \<open>try\<close> and
  \<open>catch\<close>: whatever a store call throws is logged and the two lists stay as they were.
\<close>

definition processListing ::
  "Listing \<Rightarrow> ScraperConfig \<Rightarrow> Listing list \<Rightarrow> Listing list \<Rightarrow> world
     \<Rightarrow> Listing list \<times> Listing list \<times> world" where
  "processListing l config newL drops w =
     (case getListing (scraperId l) (listingId l) w of
        (Inl e, w1) \<Rightarrow> (newL, drops, console_error ''Error processing listing'' w1)
      | (Inr None, w1) \<Rightarrow>
          (case saveListing l w1 of
             (Inl e, w2) \<Rightarrow> (newL, drops, console_error ''Error processing listing'' w2)
           | (Inr u, w2) \<Rightarrow> (newL @ [l], drops, w2))
      | (Inr (Some existingListing), w1) \<Rightarrow>
          (if price l \<noteq> price existingListing
           then (let priceDropPct = js_div (of_int (price existingListing - price l))
                                      (of_int (price existingListing))
                 in case updateListingPrice (scraperId l) (listingId l) (price l) (lastSeen l) w1 of
                      (Inl e, w2) \<Rightarrow> (newL, drops, console_error ''Error processing listing'' w2)
                    | (Inr None, w2) \<Rightarrow> (newL, drops, w2)
                    | (Inr (Some updatedListing), w2) \<Rightarrow>
                        (if js_ge priceDropPct (priceDropThreshold config)
                         then (newL, drops @ [updatedListing], w2)
                         else (newL, drops, w2)))
           else (case updateListingPrice (scraperId l) (listingId l) (price l) (lastSeen l) w1 of
                   (Inl e, w2) \<Rightarrow> (newL, drops, console_error ''Error processing listing'' w2)
                 | (Inr r, w2) \<Rightarrow> (newL, drops, w2))))"

fun processListings_from ::
  "Listing list \<Rightarrow> ScraperConfig \<Rightarrow> Listing list \<Rightarrow> Listing list \<Rightarrow> world
     \<Rightarrow> Listing list \<times> Listing list \<times> world" where
  "processListings_from [] config newL drops w = (newL, drops, w)"
| "processListings_from (l # ls) config newL drops w =
     (case processListing l config newL drops w of
        (newL', drops', w') \<Rightarrow> processListings_from ls config newL' drops' w')"

definition processListings ::
  "Listing list \<Rightarrow> ScraperConfig \<Rightarrow> world \<Rightarrow> Listing list \<times> Listing list \<times> world" where
  "processListings scrapedListings config w = processListings_from scrapedListings config [] [] w"

text \<open>
  \<open>ScraperService.sendNotifications\<close>: one payload per new listing, then one per price
  drop with its percentage (\<open>0\<close> when \<open>previousPrice\<close> is absent or zero); the outcomes
  are awaited with \<open>allSettled\<close> and dropped.
\<close>

definition new_listing_payload :: "ScraperConfig \<Rightarrow> Listing \<Rightarrow> NotificationPayload" where
  "new_listing_payload config l =
     \<lparr>payload_type = New_listing, listing = l, scraper = config, priceDropPercentage = None\<rparr>"

definition price_drop_payload :: "ScraperConfig \<Rightarrow> Listing \<Rightarrow> NotificationPayload" where
  "price_drop_payload config l =
     \<lparr>payload_type = Price_drop, listing = l, scraper = config,
      priceDropPercentage =
        Some (case previousPrice l of
                None \<Rightarrow> Num 0
              | Some pp \<Rightarrow>
                  (if pp = 0 then Num 0
                   else js_times100 (js_div (of_int (pp - price l)) (of_int pp))))\<rparr>"

fun notify_each :: "SecretsConfig \<Rightarrow> NotificationPayload list \<Rightarrow> world \<Rightarrow> world" where
  "notify_each secrets [] w = w"
| "notify_each secrets (p # ps) w =
     notify_each secrets ps (snd (NotificationService_sendNotifications secrets p w))"

definition ScraperService_sendNotifications ::
  "Listing list \<Rightarrow> Listing list \<Rightarrow> ScraperConfig \<Rightarrow> SecretsConfig \<Rightarrow> world \<Rightarrow> world" where
  "ScraperService_sendNotifications newL drops config secrets w =
     notify_each secrets
       (map (new_listing_payload config) newL @ map (price_drop_payload config) drops) w"

definition marketplace_name :: "marketplace \<Rightarrow> string" where
  "marketplace_name m =
     (case m of Facebook \<Rightarrow> ''facebook'' | Craigslist \<Rightarrow> ''craigslist'' | Ebay \<Rightarrow> ''ebay'')"

text \<open>\<open>error instanceof Error ? error.message : 'Unknown error'\<close>.\<close>

definition error_message :: "exn \<Rightarrow> string" where
  "error_message e = (case e of Error m \<Rightarrow> m | Thrown \<Rightarrow> ''Unknown error'')"

text \<open>
  The \<open>try\<close> block of \<open>executeScraper\<close>: what it returns or throws, the scraper object the
  local variable holds at that point (\<open>None\<close> is \<open>null\<close>), and the world.
\<close>

definition executeScraper_try ::
  "string \<Rightarrow> int \<Rightarrow> world
     \<Rightarrow> (exn + ScrapingResult) \<times> FacebookMarketplaceScraper option \<times> world" where
  "executeScraper_try sid startTime w =
     (case getConfig w of
        (Inl e, w1) \<Rightarrow> (Inl e, None, w1)
      | (Inr config, w1) \<Rightarrow>
          (case find (\<lambda>s. config_id s = sid) (scrapers config) of
             None \<Rightarrow>
               (Inl (Error (''Scraper configuration not found for ID: '' @ sid)), None, w1)
           | Some scraperConfig \<Rightarrow>
               (if \<not> enabled scraperConfig
                then (let (now, w2) = Date_now w1
                      in (Inr \<lparr>result_scraperId = sid, success = True, error = None,
                               newListings = [], priceDrops = [], totalFound = 0,
                               executionTime = now - startTime\<rparr>, None, w2))
                else if marketplace scraperConfig = Facebook
                then (case initialize \<lparr>browser = False\<rparr> w1 of
                        (Inl e, s, w2) \<Rightarrow> (Inl e, Some s, w2)
                      | (Inr u, s, w2) \<Rightarrow>
                          (case getSecrets w2 of
                             (Inl e, w3) \<Rightarrow> (Inl e, Some s, w3)
                           | (Inr secrets, w3) \<Rightarrow>
                               (case scrape s scraperConfig (secrets ''facebook-cookies'') w3 of
                                  (Inl e, s', w4) \<Rightarrow> (Inl e, Some s', w4)
                                | (Inr scrapedListings, s', w4) \<Rightarrow>
                                    (case processListings scrapedListings scraperConfig w4 of
                                       (newL, drops, w5) \<Rightarrow>
                                         (let w6 = (if newL \<noteq> [] \<or> drops \<noteq> []
                                                    then ScraperService_sendNotifications
                                                           newL drops scraperConfig secrets w5
                                                    else w5);
                                              (now, w7) = Date_now w6
                                          in (Inr \<lparr>result_scraperId = sid, success = True,
                                                   error = None, newListings = newL,
                                                   priceDrops = drops,
                                                   totalFound = length scrapedListings,
                                                   executionTime = now - startTime\<rparr>,
                                              Some s', w7))))))
                else (Inl (Error (''Unsupported marketplace: ''
                                    @ marketplace_name (marketplace scraperConfig))),
                      None, w1))))"

definition executeScraper_catch ::
  "string \<Rightarrow> int \<Rightarrow> exn \<Rightarrow> world \<Rightarrow> ScrapingResult \<times> world" where
  "executeScraper_catch sid startTime e w =
     (let (now, w1) = Date_now (console_error ''Scraper failed'' w)
      in (\<lparr>result_scraperId = sid, success = False, error = Some (error_message e),
           newListings = [], priceDrops = [], totalFound = 0,
           executionTime = now - startTime\<rparr>, w1))"

text \<open>
  \<open>executeScraper\<close>: \<open>try\<close>, \<open>catch\<close>, then \<open>finally\<close>. The \<open>finally\<close> block awaits
  \<open>cleanup\<close>; when that rejects, the rejection is what the call ends with.
\<close>

definition executeScraper :: "string \<Rightarrow> world \<Rightarrow> (exn + ScrapingResult) \<times> world" where
  "executeScraper sid w =
     (let (startTime, w0) = Date_now w
      in case executeScraper_try sid startTime w0 of
           (body, sc, w1) \<Rightarrow>
             (case (case body of
                      Inr r \<Rightarrow> (r, w1)
                    | Inl e \<Rightarrow> executeScraper_catch sid startTime e w1) of
                (ret, w2) \<Rightarrow>
                  (case sc of
                     None \<Rightarrow> (Inr ret, w2)
                   | Some s \<Rightarrow>
                       (case cleanup s w2 of
                          (Inl e, s', w3) \<Rightarrow> (Inl e, w3)
                        | (Inr u, s', w3) \<Rightarrow> (Inr ret, w3)))))"

section \<open>Batch Scheduler (handlers/scheduler.ts)\<close>

text \<open>
  One wave: \<open>batch.map(executeScraper)\<close> awaited with \<open>Promise.allSettled\<close>. The runs of
  a wave are taken one after the other in the order of the wave, which is one of the
  interleavings the event loop admits; every run settles, whatever the others did.
\<close>

fun run_wave :: "ScraperConfig list \<Rightarrow> world \<Rightarrow> (exn + ScrapingResult) list \<times> world" where
  "run_wave [] w = ([], w)"
| "run_wave (sc # scs) w =
     (case executeScraper (config_id sc) w of
        (r, w1) \<Rightarrow> (case run_wave scs w1 of (rs, w2) \<Rightarrow> (r # rs, w2)))"

text \<open>\<open>result.reason?.message || 'Unknown error'\<close>.\<close>

definition reason_message :: "exn \<Rightarrow> string" where
  "reason_message e =
     (case e of Error m \<Rightarrow> (if m = [] then ''Unknown error'' else m)
              | Thrown \<Rightarrow> ''Unknown error'')"

text \<open>\<open>batchResults.forEach\<close>: a fulfilled outcome is pushed as it is, a rejected one as a
  failed result with no execution time, after an error line.\<close>

fun collect_wave ::
  "ScraperConfig list \<Rightarrow> (exn + ScrapingResult) list \<Rightarrow> ScrapingResult list \<Rightarrow> world
     \<Rightarrow> ScrapingResult list \<times> world" where
  "collect_wave (sc # scs) (Inr v # rs) results w = collect_wave scs rs (results @ [v]) w"
| "collect_wave (sc # scs) (Inl e # rs) results w =
     collect_wave scs rs
       (results @ [\<lparr>result_scraperId = config_id sc, success = False,
                     error = Some (reason_message e), newListings = [], priceDrops = [],
                     totalFound = 0, executionTime = 0\<rparr>])
       (console_error ''Scraper failed'' w)"
| "collect_wave scs rs results w = (results, w)"

text \<open>
  The \<open>for\<close> loop over the waves, from index \<open>i\<close> in steps of \<open>maxConcurrent\<close>. With
  \<open>maxConcurrent = 0\<close> the index never advances and the loop does not return.
\<close>

partial_function (option) run_batches ::
  "nat \<Rightarrow> nat \<Rightarrow> ScraperConfig list \<Rightarrow> ScrapingResult list \<Rightarrow> world
     \<Rightarrow> (ScrapingResult list \<times> world) option" where
  "run_batches i maxConcurrent enabledScrapers results w =
     (if i < length enabledScrapers
      then (let batch = take maxConcurrent (drop i enabledScrapers);
                w1 = emit (ExecutingBatch (i div maxConcurrent + 1) (map config_id batch)) w;
                (batchResults, w2) = run_wave batch w1;
                (results', w3) = collect_wave batch batchResults results w2;
                w4 = (if i + maxConcurrent < length enabledScrapers
                      then emit (Cooldown 2000) w3 else w3)
            in run_batches (i + maxConcurrent) maxConcurrent enabledScrapers results' w4)
      else Some (results, w))"

record RunSummary =
  totalScrapers :: nat
  successCount :: nat
  failedCount :: nat
  summary_totalFound :: nat
  totalNew :: nat
  totalDrops :: nat
  avgExecutionTime :: rat

definition summarize :: "ScraperConfig list \<Rightarrow> ScrapingResult list \<Rightarrow> RunSummary" where
  "summarize enabledScrapers results =
     (let ok = length (filter success results)
      in \<lparr>totalScrapers = length enabledScrapers,
          successCount = ok,
          failedCount = length enabledScrapers - ok,
          summary_totalFound = sum_list (map totalFound results),
          totalNew = sum_list (map (\<lambda>r. length (newListings r)) results),
          totalDrops = sum_list (map (\<lambda>r. length (priceDrops r)) results),
          avgExecutionTime = of_int (sum_list (map executionTime results))
                               / of_nat (length results)\<rparr>)"

text \<open>
  The scheduler's handler. The source logs the summary and the per-watcher results; they
  are the value here. A rejected \<open>getEnabledScrapers\<close> is logged and rethrown; with no
  enabled watcher the handler returns at once.
\<close>

definition handler ::
  "nat \<Rightarrow> world \<Rightarrow> ((exn + (RunSummary \<times> ScrapingResult list) option) \<times> world) option" where
  "handler maxConcurrent w =
     (case getEnabledScrapers w of
        (Inl e, w1) \<Rightarrow> Some (Inl e, console_error ''Scheduler failed'' w1)
      | (Inr enabledScrapers, w1) \<Rightarrow>
          (if length enabledScrapers = 0 then Some (Inr None, w1)
           else (case run_batches 0 maxConcurrent enabledScrapers [] w1 of
                   None \<Rightarrow> None
                 | Some (results, w2) \<Rightarrow>
                     Some (Inr (Some (summarize enabledScrapers results, results)), w2))))"

section \<open>Inputs and predicates of the statements\<close>

text \<open>
  Concrete inputs for the instances below: a bundle of secrets, a watcher with Slack and
  Telegram enabled and Pushover disabled, a listing, and a world in which every external
  call succeeds, the table is empty and the clock starts at 1700000000000 ms and
  advances one second per reading. \<open>store_ok\<close>: every store call still to come
  succeeds, with no TTL deletion in between.
\<close>

definition example_secrets :: SecretsConfig where
  "example_secrets =
     [''facebook-cookies'' \<mapsto> ''c_user=1'',
      ''slack-webhook-url'' \<mapsto> ''https://hooks.example/T2'',
      ''telegram-bot-token'' \<mapsto> ''bot-token'',
      ''telegram-chat-id'' \<mapsto> ''chat-7'']"

definition example_notifications :: NotificationConfig where
  "example_notifications =
     \<lparr>slack = Some \<lparr>slack_enabled = True, webhook = ''slack-webhook-url-from-secrets''\<rparr>,
      telegram = Some \<lparr>telegram_enabled = True, botToken = ''telegram-bot-token-from-secrets'',
                        chatId = ''telegram-chat-id-from-secrets''\<rparr>,
      pushover = Some \<lparr>pushover_enabled = False, userKey = ''u'', appToken = ''a''\<rparr>\<rparr>"

definition example_watcher :: "string \<Rightarrow> ScraperConfig" where
  "example_watcher i =
     \<lparr>config_id = i, name = ''Bikes'', enabled = True, marketplace = Facebook,
      query = ''road bike'', search_location = ''Austin'', radius = 25,
      priceMin = None, priceMax = None, includeKeywords = None, excludeKeywords = None,
      scrollDepth = 3, priceDropThreshold = 1 / 10, notifications = example_notifications\<rparr>"

definition example_listing :: "string \<Rightarrow> string \<Rightarrow> int \<Rightarrow> Listing" where
  "example_listing i lid p =
     \<lparr>scraperId = i, listingId = lid, title = ''Road bike'', price = p,
      previousPrice = None, location = ''Austin'',
      url = ''https://www.facebook.com/marketplace/item/'' @ lid, imageUrl = None,
      firstSeen = ''2023-11-14T22:13:20.000Z'', lastSeen = ''2023-11-14T22:13:20.000Z'',
      expiresAt = 0\<rparr>"

definition example_world :: "ScraperConfig list \<Rightarrow> world" where
  "example_world ws =
     \<lparr>table = Map.empty, timeline = (\<lambda>n. 1700000000000 + 1000 * int n), reads = 0,
      dynamo = [], playwright = [], marketplace_page = (\<lambda>i. Inr []),
      axios = (\<lambda>c i. None), ssm = Inr \<lparr>scrapers = ws\<rparr>,
      secretsManager = Inr example_secrets, log = []\<rparr>"

definition store_ok :: "world \<Rightarrow> bool" where
  "store_ok w = list_all (\<lambda>out. out = SendOk) (dynamo w)"

text \<open>
  A world in which the stored record of listing 1 has expired: the first store call
  finds it, and the TTL process deletes it before the second call is served.
\<close>

definition expiring_world :: world where
  "expiring_world =
     (example_world [])\<lparr>dynamo := [SendOk, SendAfterReclaim],
        table := [(''w1'', ''1'') \<mapsto> example_listing ''w1'' ''1'' 5000]\<rparr>"

text \<open>
  \<open>posts_of\<close>: the channels of the HTTP posts in a list of events, in order.
  \<open>settled\<close>: the outcome of the delivery to one channel taken alone, which is what the
  HTTP post to that channel does for the payload's listing. \<open>silent_watcher\<close>: a watcher
  with no enabled channel.
\<close>

fun post_channel :: "event \<Rightarrow> channel option" where
  "post_channel (HttpPost c creds ty l pct) = Some c"
| "post_channel e = None"

definition posts_of :: "event list \<Rightarrow> channel list" where
  "posts_of evs = List.map_filter post_channel evs"

definition settled :: "world \<Rightarrow> NotificationPayload \<Rightarrow> channel \<Rightarrow> exn + unit" where
  "settled w payload c =
     (case axios w c (listingId (listing payload)) of None \<Rightarrow> Inr () | Some e \<Rightarrow> Inl e)"

definition silent_watcher :: ScraperConfig where
  "silent_watcher =
     (example_watcher ''w2'')\<lparr>notifications :=
        \<lparr>slack = None,
         telegram = Some \<lparr>telegram_enabled = False, botToken = ''t'', chatId = ''c''\<rparr>,
         pushover = None\<rparr>\<rparr>"

text \<open>
  \<open>is_resource\<close>: the events of acquiring and releasing a browser or a page.
  \<open>is_run\<close>: the page work of a run, which names its watcher.
  \<open>is_scheduler\<close>: the events of the Batch Scheduler itself. \<open>adds r w w'\<close>: the log
  of \<open>w'\<close> is the log of \<open>w\<close> with more events after it, whose resource and page-work
  events are exactly \<open>r\<close> and none of which is a scheduler event; the configuration
  and the secrets are those of \<open>w\<close>, and when no browser call of \<open>w\<close> is still to
  fail, none of \<open>w'\<close> is.
\<close>

definition is_resource :: "event \<Rightarrow> bool" where
  "is_resource e =
     (case e of BrowserLaunched \<Rightarrow> True | BrowserCloseCalled \<Rightarrow> True
              | PageOpened \<Rightarrow> True | PageCloseCalled \<Rightarrow> True | _ \<Rightarrow> False)"

definition is_run :: "event \<Rightarrow> bool" where
  "is_run e = (case e of PageWork sid \<Rightarrow> True | _ \<Rightarrow> False)"

definition is_scheduler :: "event \<Rightarrow> bool" where
  "is_scheduler e = (case e of ExecutingBatch n ids \<Rightarrow> True | Cooldown ms \<Rightarrow> True | _ \<Rightarrow> False)"

definition steady :: "world \<Rightarrow> world \<Rightarrow> bool" where
  "steady w w' \<longleftrightarrow>
     ssm w' = ssm w \<and> secretsManager w' = secretsManager w \<and>
     (playwright w = [] \<longrightarrow> playwright w' = [])"

definition adds :: "event list \<Rightarrow> world \<Rightarrow> world \<Rightarrow> bool" where
  "adds r w w' \<longleftrightarrow>
     (\<exists>evs. log w' = log w @ evs \<and> filter (\<lambda>e. is_resource e \<or> is_run e) evs = r \<and>
            filter is_scheduler evs = []) \<and>
     steady w w'"

text \<open>
  A world with one enabled Facebook watcher in which launching the browser, opening the
  page and closing the page succeed, the page yields no listing, and \<open>browser.close\<close>
  rejects.
\<close>

definition close_fails_world :: world where
  "close_fails_world =
     (example_world [example_watcher ''w1''])
       \<lparr>playwright := [None, None, None, Some (Error ''Protocol error: Browser.close'')]\<rparr>"

text \<open>
  The partition of the specification. \<open>wave_count n k\<close> is the number of waves for
  \<open>n\<close> watchers and limit \<open>k\<close> (the ceiling of \<open>n / k\<close>); \<open>wave k j xs\<close> is the
  \<open>j\<close>-th wave, the next \<open>k\<close> elements after the first \<open>j * k\<close>;
  \<open>schedule_plan k ids\<close> is what the scheduler is to do: each wave in turn, numbered
  from 1, with a cooldown of 2000 ms after every wave but the last.
  \<open>sched s w w'\<close>: the log of \<open>w'\<close> is the log of \<open>w\<close> with more events after it,
  whose scheduler events are exactly \<open>s\<close>. \<open>settled_id\<close>: a fulfilled outcome carries
  the id of the watcher it was started for.
\<close>

definition sched :: "event list \<Rightarrow> world \<Rightarrow> world \<Rightarrow> bool" where
  "sched s w w' \<longleftrightarrow> (\<exists>evs. log w' = log w @ evs \<and> filter is_scheduler evs = s)"

definition wave_count :: "nat \<Rightarrow> nat \<Rightarrow> nat" where
  "wave_count n k = (n + k - 1) div k"

definition wave :: "nat \<Rightarrow> nat \<Rightarrow> 'a list \<Rightarrow> 'a list" where
  "wave k j xs = take k (drop (j * k) xs)"

definition wave_events :: "nat \<Rightarrow> string list \<Rightarrow> nat \<Rightarrow> event list" where
  "wave_events k ids j =
     ExecutingBatch (Suc j) (wave k j ids)
       # (if Suc j < wave_count (length ids) k then [Cooldown 2000] else [])"

definition schedule_plan :: "nat \<Rightarrow> string list \<Rightarrow> event list" where
  "schedule_plan k ids = concat (map (wave_events k ids) [0 ..< wave_count (length ids) k])"

definition is_cooldown :: "event \<Rightarrow> bool" where
  "is_cooldown e = (case e of Cooldown ms \<Rightarrow> True | _ \<Rightarrow> False)"

definition settled_id :: "ScraperConfig \<Rightarrow> exn + ScrapingResult \<Rightarrow> bool" where
  "settled_id sc r = (case r of Inr v \<Rightarrow> result_scraperId v = config_id sc | Inl e \<Rightarrow> True)"

text \<open>
  What the runs of the watchers leave in the log between the scheduler's own lines.
  \<open>is_trace\<close>: the scheduler events, the resource events and the page work.
  \<open>run_trace sid\<close>: the trace of a run of watcher \<open>sid\<close> that gets as far as the page:
  browser launched, page opened, the page work of \<open>sid\<close>, page close, browser close.
  \<open>run_shape sid r\<close>: \<open>r\<close> is the trace of some run of \<open>sid\<close>: nothing (the run ended
  before the browser was launched), a browser launched and closed, or \<open>run_trace sid\<close>.
  \<open>wave_trace k ids j runs\<close>: wave \<open>j\<close> with the traces \<open>runs\<close> of its runs: the batch
  line, the runs one after the other, and the cooldown unless the wave is the last.
  \<open>trace_plan k ids\<close>: all waves in turn, every run getting as far as the page.
  \<open>ready w sid\<close>: in \<open>w\<close> the configuration loads and its first watcher with id \<open>sid\<close>
  is enabled and on Facebook, the secrets load, and no browser call is going to fail, so
  that a run of \<open>sid\<close> gets as far as the page.
\<close>

definition is_trace :: "event \<Rightarrow> bool" where
  "is_trace e = (is_scheduler e \<or> is_resource e \<or> is_run e)"

definition trace :: "event list \<Rightarrow> world \<Rightarrow> world \<Rightarrow> bool" where
  "trace t w w' \<longleftrightarrow> (\<exists>evs. log w' = log w @ evs \<and> filter is_trace evs = t)"

definition run_trace :: "string \<Rightarrow> event list" where
  "run_trace sid =
     [BrowserLaunched, PageOpened, PageWork sid, PageCloseCalled, BrowserCloseCalled]"

definition run_shape :: "string \<Rightarrow> event list \<Rightarrow> bool" where
  "run_shape sid r \<longleftrightarrow>
     r = [] \<or> r = [BrowserLaunched, BrowserCloseCalled] \<or> r = run_trace sid"

definition wave_trace :: "nat \<Rightarrow> string list \<Rightarrow> nat \<Rightarrow> event list list \<Rightarrow> event list" where
  "wave_trace k ids j runs =
     ExecutingBatch (Suc j) (wave k j ids) # concat runs
       @ (if Suc j < wave_count (length ids) k then [Cooldown 2000] else [])"

definition trace_plan :: "nat \<Rightarrow> string list \<Rightarrow> event list" where
  "trace_plan k ids =
     concat (map (\<lambda>j. wave_trace k ids j (map run_trace (wave k j ids)))
               [0 ..< wave_count (length ids) k])"

definition ready :: "world \<Rightarrow> string \<Rightarrow> bool" where
  "ready w sid =
     ((case ssm w of
         Inl e \<Rightarrow> False
       | Inr cfg \<Rightarrow>
           (case find (\<lambda>s. config_id s = sid) (scrapers cfg) of
              None \<Rightarrow> False
            | Some sc \<Rightarrow> enabled sc \<and> marketplace sc = Facebook)) \<and>
      (case secretsManager w of Inl e \<Rightarrow> False | Inr s \<Rightarrow> True) \<and>
      playwright w = [])"

text \<open>Seven enabled watchers, for the wave example of the specification.\<close>

definition seven_watchers :: "ScraperConfig list" where
  "seven_watchers = map example_watcher [''a'', ''b'', ''c'', ''d'', ''e'', ''f'', ''g'']"

section \<open>Properties of the string functions\<close>

lemma str_includes_take: "take (length p) s = p \<Longrightarrow> str_includes s p"
  by (cases s) auto

lemma replace_take: "take (length p) s = p \<Longrightarrow> replace s p r = r @ drop (length p) s"
  by (cases s) auto

lemma str_includes_append: "str_includes (pre @ p @ post) p"
proof (induction pre)
  case Nil
  show ?case by (simp add: str_includes_take)
next
  case (Cons a pre)
  then show ?case by simp
qed

lemma str_includes_decompose: "str_includes s p \<Longrightarrow> \<exists>pre post. s = pre @ p @ post"
proof (induction s)
  case Nil
  then show ?case by simp
next
  case (Cons c cs)
  show ?case
  proof (cases "take (length p) (c # cs) = p")
    case True
    then have "c # cs = [] @ p @ drop (length p) (c # cs)"
      by (metis append_Nil append_take_drop_id)
    then show ?thesis by blast
  next
    case False
    with Cons.prems have "str_includes cs p" by simp
    then obtain pre post where "cs = pre @ p @ post" using Cons.IH by blast
    then have "c # cs = (c # pre) @ p @ post" by simp
    then show ?thesis by blast
  qed
qed

lemma str_includes_iff: "str_includes s p \<longleftrightarrow> (\<exists>pre post. s = pre @ p @ post)"
  using str_includes_append str_includes_decompose by blast

lemma replace_leftmost:
  "\<not> str_includes (pre @ butlast p) p \<Longrightarrow> replace (pre @ p @ post) p r = pre @ r @ post"
proof (induction pre)
  case Nil
  show ?case by (simp add: replace_take)
next
  case (Cons a pre)
  have np: "p \<noteq> []" using Cons.prems by auto
  have "take (length p) ((a # pre) @ butlast p) \<noteq> p" using Cons.prems by simp
  moreover have "length p \<le> length ((a # pre) @ butlast p)" using np by simp
  ultimately have "take (length p) ((a # pre) @ p @ post) \<noteq> p"
    by (metis append.assoc append_butlast_last_id np take_append take_all_iff diff_is_0_eq' take_0 append_Nil2)
  moreover have "\<not> str_includes (pre @ butlast p) p" using Cons.prems by simp
  ultimately show ?case using Cons.IH by simp
qed

section \<open>Credential lookup\<close>

text \<open>
  C9, as amended. A credential string without the marker \<open>-from-secrets\<close> is returned
  as it is. A credential string with the marker is looked up in the secrets bundle under
  the string with the leftmost occurrence of the marker cut out, wherever that occurrence
  stands (\<open>pre\<close> is what precedes it: the marker does not begin inside \<open>pre\<close>). The
  bundle's own entry under that name is returned when there is one; without an own entry,
  a name that is a member of \<open>Object.prototype\<close> gives that inherited member, which is
  not a string; any other name gives the empty string.
\<close>

theorem getSecretValue_first_occurrence:
  "(\<not> str_includes key ''-from-secrets'' \<longrightarrow> getSecretValue secrets key = Text key) \<and>
   (key = pre @ ''-from-secrets'' @ post \<and>
    \<not> str_includes (pre @ butlast ''-from-secrets'') ''-from-secrets'' \<longrightarrow>
      getSecretValue secrets key
        = (case secrets (pre @ post) of
             Some v \<Rightarrow> Text v
           | None \<Rightarrow> (if pre @ post \<in> set object_prototype_members
                       then Inherited (pre @ post) else Text [])))"
proof (intro conjI impI)
  assume "\<not> str_includes key ''-from-secrets''"
  then show "getSecretValue secrets key = Text key" by (simp add: getSecretValue_def)
next
  assume a: "key = pre @ ''-from-secrets'' @ post \<and>
    \<not> str_includes (pre @ butlast ''-from-secrets'') ''-from-secrets''"
  then have inc: "str_includes key ''-from-secrets''"
    using str_includes_append by blast
  have "replace key ''-from-secrets'' [] = pre @ post"
    using a replace_leftmost [of pre "''-from-secrets''" post "[]"] by simp
  then show "getSecretValue secrets key
        = (case secrets (pre @ post) of
             Some v \<Rightarrow> Text v
           | None \<Rightarrow> (if pre @ post \<in> set object_prototype_members
                       then Inherited (pre @ post) else Text []))"
    using inc by (simp add: getSecretValue_def property_lookup_def Let_def split: option.splits)
qed

theorem getSecretValue_first_occurrence_witness:
  "\<not> str_includes ''https://hooks.example/T1'' ''-from-secrets'' \<and>
   getSecretValue [''slack-webhook-url'' \<mapsto> ''https://hooks.example/T2'']
     ''https://hooks.example/T1'' = Text ''https://hooks.example/T1'' \<and>
   ''slack-webhook-url-from-secrets'' = ''slack-webhook-url'' @ ''-from-secrets'' @ [] \<and>
   \<not> str_includes (''slack-webhook-url'' @ butlast ''-from-secrets'') ''-from-secrets'' \<and>
   getSecretValue [''slack-webhook-url'' \<mapsto> ''https://hooks.example/T2'']
     ''slack-webhook-url-from-secrets'' = Text ''https://hooks.example/T2'' \<and>
   getSecretValue Map.empty ''slack-webhook-url-from-secrets'' = Text [] \<and>
   getSecretValue Map.empty ''constructor-from-secrets'' = Inherited ''constructor'' \<and>
   getSecretValue [''constructor'' \<mapsto> ''own''] ''constructor-from-secrets'' = Text ''own''"
proof -
  have m: "''slack-webhook-url'' \<notin> set object_prototype_members"
    "''constructor'' \<in> set object_prototype_members"
    by (simp_all add: object_prototype_members_def)
  have n: "\<not> str_includes (''constructor'' @ butlast ''-from-secrets'') ''-from-secrets''"
    "\<not> str_includes (''slack-webhook-url'' @ butlast ''-from-secrets'') ''-from-secrets''"
    "\<not> str_includes ''https://hooks.example/T1'' ''-from-secrets''"
    by simp_all
  from getSecretValue_first_occurrence
          [of "''https://hooks.example/T1''"
              "[''slack-webhook-url'' \<mapsto> ''https://hooks.example/T2'']" "[]" "[]"]
       getSecretValue_first_occurrence
          [of "''slack-webhook-url-from-secrets''"
              "[''slack-webhook-url'' \<mapsto> ''https://hooks.example/T2'']"
              "''slack-webhook-url''" "[]"]
       getSecretValue_first_occurrence
          [of "''slack-webhook-url-from-secrets''" "Map.empty" "''slack-webhook-url''" "[]"]
       getSecretValue_first_occurrence
          [of "''constructor-from-secrets''" "Map.empty" "''constructor''" "[]"]
       getSecretValue_first_occurrence
          [of "''constructor-from-secrets''" "[''constructor'' \<mapsto> ''own'']" "''constructor''" "[]"]
       m n
  show ?thesis by simp
qed

text \<open>
  C9 as stated fails twice. With the marker as a suffix and once more before it, the
  code cuts out the earlier occurrence, not the suffix, and looks up another key, so the
  entry keyed by the string without its suffix is not what is returned. And with no
  entry under the name, the result is not always the empty string: for
  \<open>constructor-from-secrets\<close> and a bundle without entries it is the inherited
  \<open>constructor\<close> function.
\<close>

theorem getSecretValue_suffix_counterexample:
  "str_includes ''a-from-secrets/b-from-secrets'' ''-from-secrets'' \<and>
   strip_suffix ''a-from-secrets/b-from-secrets'' ''-from-secrets'' = ''a-from-secrets/b'' \<and>
   [''a-from-secrets/b'' \<mapsto> ''S'']
      (strip_suffix ''a-from-secrets/b-from-secrets'' ''-from-secrets'') = Some ''S'' \<and>
   getSecretValue [''a-from-secrets/b'' \<mapsto> ''S''] ''a-from-secrets/b-from-secrets'' = Text [] \<and>
   str_includes ''constructor-from-secrets'' ''-from-secrets'' \<and>
   strip_suffix ''constructor-from-secrets'' ''-from-secrets'' = ''constructor'' \<and>
   (Map.empty :: SecretsConfig) (strip_suffix ''constructor-from-secrets'' ''-from-secrets'') = None \<and>
   getSecretValue Map.empty ''constructor-from-secrets'' = Inherited ''constructor''"
  by (simp add: getSecretValue_def strip_suffix_def property_lookup_def
        object_prototype_members_def)

section \<open>Item Store and change classification\<close>

lemma emit_fields [simp]:
  "table (emit e w) = table w" "timeline (emit e w) = timeline w" "reads (emit e w) = reads w"
  "dynamo (emit e w) = dynamo w" "playwright (emit e w) = playwright w"
  "marketplace_page (emit e w) = marketplace_page w" "axios (emit e w) = axios w"
  "ssm (emit e w) = ssm w" "secretsManager (emit e w) = secretsManager w"
  "log (emit e w) = log w @ [e]"
  by (simp_all add: emit_def)

lemma console_error_fields [simp]:
  "table (console_error m w) = table w" "timeline (console_error m w) = timeline w"
  "reads (console_error m w) = reads w" "dynamo (console_error m w) = dynamo w"
  "playwright (console_error m w) = playwright w"
  "marketplace_page (console_error m w) = marketplace_page w"
  "axios (console_error m w) = axios w" "ssm (console_error m w) = ssm w"
  "secretsManager (console_error m w) = secretsManager w"
  "log (console_error m w) = log w @ [ConsoleError m]"
  by (simp_all add: console_error_def)

lemma docClient_send_ok:
  "store_ok w \<Longrightarrow> docClient_send w = (None, w\<lparr>dynamo := tl (dynamo w)\<rparr>)"
  by (cases "dynamo w") (auto simp: store_ok_def docClient_send_def)

lemma store_ok_tl [simp]: "store_ok w \<Longrightarrow> store_ok (w\<lparr>dynamo := tl (dynamo w)\<rparr>)"
  by (cases "dynamo w") (auto simp: store_ok_def)

lemma store_ok_upd [simp]:
  "store_ok (w\<lparr>reads := r\<rparr>) = store_ok w" "store_ok (w\<lparr>table := t\<rparr>) = store_ok w"
  "store_ok (w\<lparr>log := l\<rparr>) = store_ok w"
  by (simp_all add: store_ok_def)

lemma getListing_ok:
  "store_ok w \<Longrightarrow> getListing sid lid w = (Inr (table w (sid, lid)), w\<lparr>dynamo := tl (dynamo w)\<rparr>)"
  by (simp add: getListing_def docClient_send_ok)


lemma updateListingPrice_ok:
  "store_ok w \<Longrightarrow> table w (sid, lid) = Some st \<Longrightarrow>
   updateListingPrice sid lid p seen w =
     (let u = st\<lparr>price := p, previousPrice := Some (price st), lastSeen := seen,
                 expiresAt := timeline w (reads w) div 1000 + ttl_seconds\<rparr>
      in (Inr (Some u), w\<lparr>reads := Suc (reads w), dynamo := tl (tl (dynamo w)),
               table := (table w)((sid, lid) \<mapsto> u)\<rparr>))"
  by (simp add: updateListingPrice_def Date_now_def docClient_send_ok getListing_ok update_item_def Let_def)






lemma processListing_stored:
  assumes "store_ok w" and st: "table w (scraperId l, listingId l) = Some st"
  shows "processListing l config newL drops w =
     (newL,
      (if price l \<noteq> price st \<and>
          js_ge (js_div (of_int (price st - price l)) (of_int (price st)))
                (priceDropThreshold config)
       then drops @ [st\<lparr>price := price l, previousPrice := Some (price st),
                         lastSeen := lastSeen l,
                         expiresAt := timeline w (reads w) div 1000 + ttl_seconds\<rparr>]
       else drops),
      w\<lparr>dynamo := tl (tl (tl (dynamo w))), reads := Suc (reads w),
        table := (table w)((scraperId l, listingId l) \<mapsto>
                   st\<lparr>price := price l, previousPrice := Some (price st),
                      lastSeen := lastSeen l,
                      expiresAt := timeline w (reads w) div 1000 + ttl_seconds\<rparr>)\<rparr>)"
proof -
  define u where "u = st\<lparr>price := price l, previousPrice := Some (price st),
                         lastSeen := lastSeen l,
                         expiresAt := timeline w (reads w) div 1000 + ttl_seconds\<rparr>"
  have upd: "updateListingPrice (scraperId l) (listingId l) (price l) (lastSeen l)
               (w\<lparr>dynamo := tl (dynamo w)\<rparr>)
             = (Inr (Some u), w\<lparr>dynamo := tl (tl (tl (dynamo w))), reads := Suc (reads w),
                                 table := (table w)((scraperId l, listingId l) \<mapsto> u)\<rparr>)"
    using assms
      updateListingPrice_ok [of "w\<lparr>dynamo := tl (dynamo w)\<rparr>" "scraperId l" "listingId l" st
                                "price l" "lastSeen l"]
    by (simp add: u_def Let_def)
  show ?thesis
  proof (cases "price l = price st")
    case True
    from upd True have "updateListingPrice (scraperId l) (listingId l) (price st) (lastSeen l)
               (w\<lparr>dynamo := tl (dynamo w)\<rparr>)
             = (Inr (Some u), w\<lparr>dynamo := tl (tl (tl (dynamo w))), reads := Suc (reads w),
                                 table := (table w)((scraperId l, listingId l) \<mapsto> u)\<rparr>)"
      by simp
    with True show ?thesis
      using assms by (simp add: processListing_def getListing_ok u_def)
  next
    case False
    then show ?thesis
      using assms by (simp add: processListing_def getListing_ok upd Let_def u_def)
  qed
qed

lemma example_listing_fields:
  "scraperId (example_listing i k q) = i" "listingId (example_listing i k q) = k"
  "price (example_listing i k q) = q" "previousPrice (example_listing i k q) = None"
  by (simp_all add: example_listing_def)

text \<open>
  C2, at a concrete input. A stored listing at price 5000 without \<open>previousPrice\<close> is
  observed again at 5000, twice in a row. Both observations report nothing and refresh
  \<open>expiresAt\<close>, but the first leaves \<open>previousPrice = 5000\<close> in the record; and a record
  whose \<open>previousPrice\<close> was 6000 has 5000 there after one same-price observation.
\<close>

theorem same_price_refresh_sets_previousPrice:
  "previousPrice (example_listing ''w1'' ''1'' 5000) = None \<and>
   processListing (example_listing ''w1'' ''1'' 5000) (example_watcher ''w1'') [] []
     ((example_world [])\<lparr>table := [(''w1'', ''1'') \<mapsto> example_listing ''w1'' ''1'' 5000]\<rparr>)
   = ([], [],
      (example_world [])\<lparr>reads := 1,
         table := [(''w1'', ''1'') \<mapsto>
           (example_listing ''w1'' ''1'' 5000)
             \<lparr>previousPrice := Some 5000, expiresAt := 1702592000\<rparr>]\<rparr>) \<and>
   processListing (example_listing ''w1'' ''1'' 5000) (example_watcher ''w1'') [] []
     ((example_world [])\<lparr>reads := 1,
         table := [(''w1'', ''1'') \<mapsto>
           (example_listing ''w1'' ''1'' 5000)
             \<lparr>previousPrice := Some 5000, expiresAt := 1702592000\<rparr>]\<rparr>)
   = ([], [],
      (example_world [])\<lparr>reads := 2,
         table := [(''w1'', ''1'') \<mapsto>
           (example_listing ''w1'' ''1'' 5000)
             \<lparr>previousPrice := Some 5000, expiresAt := 1702592001\<rparr>]\<rparr>) \<and>
   processListing (example_listing ''w1'' ''1'' 5000) (example_watcher ''w1'') [] []
     ((example_world [])\<lparr>table := [(''w1'', ''1'') \<mapsto>
           (example_listing ''w1'' ''1'' 5000)\<lparr>previousPrice := Some 6000\<rparr>]\<rparr>)
   = ([], [],
      (example_world [])\<lparr>reads := 1,
         table := [(''w1'', ''1'') \<mapsto>
           (example_listing ''w1'' ''1'' 5000)
             \<lparr>previousPrice := Some 5000, expiresAt := 1702592000\<rparr>]\<rparr>)"
proof -
  let ?l = "example_listing ''w1'' ''1'' 5000"
  let ?c = "example_watcher ''w1''"
  have ok: "store_ok ((example_world [])\<lparr>reads := r, table := t\<rparr>)" for r t
    by (simp add: store_ok_def example_world_def)
  have ok0: "store_ok ((example_world [])\<lparr>table := t\<rparr>)" for t
    by (simp add: store_ok_def example_world_def)
  have a: "processListing ?l ?c [] [] ((example_world [])\<lparr>table := [(''w1'', ''1'') \<mapsto> ?l]\<rparr>)
     = ([], [], (example_world [])\<lparr>reads := 1,
         table := [(''w1'', ''1'') \<mapsto> ?l\<lparr>previousPrice := Some 5000, expiresAt := 1702592000\<rparr>]\<rparr>)"
    by (subst processListing_stored [OF ok0, where st = ?l])
       (simp_all add: example_listing_def example_world_def ttl_seconds_def)
  have b: "processListing ?l ?c [] [] ((example_world [])\<lparr>reads := 1,
         table := [(''w1'', ''1'') \<mapsto> ?l\<lparr>previousPrice := Some 5000, expiresAt := 1702592000\<rparr>]\<rparr>)
     = ([], [], (example_world [])\<lparr>reads := 2,
         table := [(''w1'', ''1'') \<mapsto> ?l\<lparr>previousPrice := Some 5000, expiresAt := 1702592001\<rparr>]\<rparr>)"
    by (subst processListing_stored [OF ok,
            where st = "?l\<lparr>previousPrice := Some 5000, expiresAt := 1702592000\<rparr>"])
       (simp_all add: example_listing_def example_world_def ttl_seconds_def)
  have c: "processListing ?l ?c [] [] ((example_world [])\<lparr>table := [(''w1'', ''1'') \<mapsto>
           ?l\<lparr>previousPrice := Some 6000\<rparr>]\<rparr>)
     = ([], [], (example_world [])\<lparr>reads := 1,
         table := [(''w1'', ''1'') \<mapsto> ?l\<lparr>previousPrice := Some 5000, expiresAt := 1702592000\<rparr>]\<rparr>)"
    by (subst processListing_stored [OF ok0, where st = "?l\<lparr>previousPrice := Some 6000\<rparr>"])
       (simp_all add: example_listing_def example_world_def ttl_seconds_def)
  show ?thesis using a b c by (simp add: example_listing_fields)
qed


lemma docClient_send_log [simp]: "log (snd (docClient_send w)) = log w"
  by (simp add: docClient_send_def split: list.splits send_outcome.splits)

lemma docClient_send_log_pair: "docClient_send w = (r, w1) \<Longrightarrow> log w1 = log w"
  using docClient_send_log [of w] by simp

lemma getListing_found_log:
  "getListing sid lid w = (Inr r, w1) \<Longrightarrow> log w1 = log w"
  by (auto simp: getListing_def split: prod.splits option.splits dest: docClient_send_log_pair)

lemma updateListingPrice_absent_world:
  "updateListingPrice sid lid p seen w = (Inr None, w2) \<Longrightarrow> log w2 = log w"
  by (auto simp: updateListingPrice_def getListing_def Let_def Date_now_def
           split: prod.splits option.splits sum.splits dest: docClient_send_log_pair)

text \<open>
  C7, as amended. \<open>updateListingPrice\<close> returns absent when its lookup succeeds and finds
  no record under the key. When the Watch Runner has found a stored record and the
  update then returns absent, the listing is reported neither as new nor as a price
  drop, nothing is logged, and processing goes on from the world the update left.
\<close>

theorem updateListingPrice_absent_skipped:
  "(fst (docClient_send w) = None \<and> table (snd (docClient_send w)) (sid, lid) = None \<longrightarrow>
      updateListingPrice sid lid p seen w = (Inr None, snd (docClient_send w))) \<and>
   (getListing (scraperId l) (listingId l) w = (Inr (Some st), w1) \<and>
    updateListingPrice (scraperId l) (listingId l) (price l) (lastSeen l) w1 = (Inr None, w2) \<longrightarrow>
      processListing l config newL drops w = (newL, drops, w2) \<and> log w2 = log w)"
proof (intro conjI impI)
  assume "fst (docClient_send w) = None \<and> table (snd (docClient_send w)) (sid, lid) = None"
  then show "updateListingPrice sid lid p seen w = (Inr None, snd (docClient_send w))"
    by (cases "docClient_send w") (simp add: updateListingPrice_def getListing_def)
next
  assume a: "getListing (scraperId l) (listingId l) w = (Inr (Some st), w1) \<and>
    updateListingPrice (scraperId l) (listingId l) (price l) (lastSeen l) w1 = (Inr None, w2)"
  then show "processListing l config newL drops w = (newL, drops, w2)"
    by (cases "price l = price st") (auto simp: processListing_def Let_def)
  from a show "log w2 = log w"
    using getListing_found_log updateListingPrice_absent_world by metis
qed

lemma expiring_world_get:
  "getListing ''w1'' ''1'' expiring_world
     = (Inr (Some (example_listing ''w1'' ''1'' 5000)), expiring_world\<lparr>dynamo := [SendAfterReclaim]\<rparr>)"
  by (simp add: getListing_def docClient_send_def expiring_world_def example_world_def)

lemma expiring_world_update:
  "updateListingPrice ''w1'' ''1'' q seen (expiring_world\<lparr>dynamo := [SendAfterReclaim]\<rparr>)
     = (Inr None, expiring_world\<lparr>dynamo := [], table := Map.empty\<rparr>)"
  by (simp add: updateListingPrice_def getListing_def docClient_send_def expiring_world_def
        example_world_def reclaim_def example_listing_def fun_eq_iff)

theorem updateListingPrice_absent_skipped_witness:
  "updateListingPrice ''w1'' ''2'' 4500 ''2023-11-15'' expiring_world
     = (Inr None, expiring_world\<lparr>dynamo := [SendAfterReclaim]\<rparr>) \<and>
   processListing (example_listing ''w1'' ''1'' 4500) (example_watcher ''w1'') [] [] expiring_world
     = ([], [], expiring_world\<lparr>dynamo := [], table := Map.empty\<rparr>) \<and>
   log (expiring_world\<lparr>dynamo := [], table := Map.empty\<rparr>) = log expiring_world"
proof -
  have k: "scraperId (example_listing ''w1'' ''1'' 4500) = ''w1''"
    "listingId (example_listing ''w1'' ''1'' 4500) = ''1''"
    by (simp_all add: example_listing_def)
  have 0: "docClient_send expiring_world = (None, expiring_world\<lparr>dynamo := [SendAfterReclaim]\<rparr>)"
    by (simp add: docClient_send_def expiring_world_def)
  have 1: "fst (docClient_send expiring_world) = None \<and>
     table (snd (docClient_send expiring_world)) (''w1'', ''2'') = None"
    by (simp add: 0) (simp add: expiring_world_def)
  have 2: "getListing (scraperId (example_listing ''w1'' ''1'' 4500))
             (listingId (example_listing ''w1'' ''1'' 4500)) expiring_world
           = (Inr (Some (example_listing ''w1'' ''1'' 5000)),
              expiring_world\<lparr>dynamo := [SendAfterReclaim]\<rparr>) \<and>
     updateListingPrice (scraperId (example_listing ''w1'' ''1'' 4500))
             (listingId (example_listing ''w1'' ''1'' 4500))
             (price (example_listing ''w1'' ''1'' 4500))
             (lastSeen (example_listing ''w1'' ''1'' 4500))
             (expiring_world\<lparr>dynamo := [SendAfterReclaim]\<rparr>)
           = (Inr None, expiring_world\<lparr>dynamo := [], table := Map.empty\<rparr>)"
    by (simp add: k expiring_world_get expiring_world_update)
  from updateListingPrice_absent_skipped
         [of expiring_world "''w1''" "''2''" 4500 "''2023-11-15''"
             "example_listing ''w1'' ''1'' 4500"
             "example_listing ''w1'' ''1'' 5000"
             "expiring_world\<lparr>dynamo := [SendAfterReclaim]\<rparr>"
             "expiring_world\<lparr>dynamo := [], table := Map.empty\<rparr>"
             "example_watcher ''w1''" "[]" "[]"]
       1 2
  show ?thesis by (simp add: 0)
qed

text \<open>
  C7 as stated fails: in the world where the record expires between the two lookups the
  update returns absent, and the Watch Runner records no error for the listing.
\<close>

theorem updateListingPrice_absent_counterexample:
  "fst (getListing ''w1'' ''1'' expiring_world) = Inr (Some (example_listing ''w1'' ''1'' 5000)) \<and>
   fst (updateListingPrice ''w1'' ''1'' 4500 (lastSeen (example_listing ''w1'' ''1'' 4500))
          (snd (getListing ''w1'' ''1'' expiring_world))) = Inr None \<and>
   fst (processListing (example_listing ''w1'' ''1'' 4500) (example_watcher ''w1'') [] []
          expiring_world) = [] \<and>
   fst (snd (processListing (example_listing ''w1'' ''1'' 4500) (example_watcher ''w1'') [] []
          expiring_world)) = [] \<and>
   emitted expiring_world
     (snd (snd (processListing (example_listing ''w1'' ''1'' 4500) (example_watcher ''w1'') [] []
          expiring_world))) = []"
proof -
  have k: "scraperId (example_listing ''w1'' ''1'' 4500) = ''w1''"
    "listingId (example_listing ''w1'' ''1'' 4500) = ''1''"
    "price (example_listing ''w1'' ''1'' 4500) \<noteq> price (example_listing ''w1'' ''1'' 5000)"
    by (simp_all add: example_listing_def)
  have p: "processListing (example_listing ''w1'' ''1'' 4500) (example_watcher ''w1'') [] []
          expiring_world = ([], [], expiring_world\<lparr>dynamo := [], table := Map.empty\<rparr>)"
    by (simp add: processListing_def k expiring_world_get expiring_world_update Let_def)
  show ?thesis
    by (simp add: p expiring_world_get expiring_world_update emitted_def)
qed

section \<open>Notification Fan-out\<close>

lemma emitted_append: "log w' = log w @ evs \<Longrightarrow> emitted w w' = evs"
  by (simp add: emitted_def)

lemma posts_of_simps [simp]:
  "posts_of [] = []"
  "posts_of (HttpPost c creds ty l pct # evs) = c # posts_of evs"
  "posts_of (ConsoleError m # evs) = posts_of evs"
  "posts_of (xs @ ys) = posts_of xs @ posts_of ys"
  by (simp_all add: posts_of_def List.map_filter_def)

lemma report_rejected_world:
  "report_rejected rs w
     = w\<lparr>log := log w @ map (\<lambda>r. ConsoleError ''Notification failed'') (filter isl rs)\<rparr>"
proof (induction rs arbitrary: w)
  case Nil
  show ?case by simp
next
  case (Cons r rs)
  show ?case by (cases r) (simp_all add: Cons.IH console_error_def emit_def)
qed

lemma posts_of_console [simp]: "posts_of (map (\<lambda>r. ConsoleError m) rs) = []"
  by (induction rs) simp_all

lemma sendSlack_enabled:
  assumes "channel_enabled (notifications (scraper payload)) Slack"
  shows "\<exists>evs. sendSlackNotification secrets payload w
            = (settled w payload Slack, w\<lparr>log := log w @ evs\<rparr>) \<and> posts_of evs = [Slack]"
  using assms
  by (auto simp: channel_enabled_def sendSlackNotification_def settled_def Let_def emit_def
        console_error_def split: option.splits)

lemma sendTelegram_enabled:
  assumes "channel_enabled (notifications (scraper payload)) Telegram"
  shows "\<exists>evs. sendTelegramNotification secrets payload w
            = (settled w payload Telegram, w\<lparr>log := log w @ evs\<rparr>) \<and> posts_of evs = [Telegram]"
  using assms
  by (auto simp: channel_enabled_def sendTelegramNotification_def settled_def Let_def emit_def
        console_error_def split: option.splits)

lemma sendPushover_enabled:
  assumes "channel_enabled (notifications (scraper payload)) Pushover"
  shows "\<exists>evs. sendPushoverNotification secrets payload w
            = (settled w payload Pushover, w\<lparr>log := log w @ evs\<rparr>) \<and> posts_of evs = [Pushover]"
  using assms
  by (auto simp: channel_enabled_def sendPushoverNotification_def settled_def Let_def emit_def
        console_error_def split: option.splits)

lemma settled_log [simp]: "settled (w\<lparr>log := l\<rparr>) payload c = settled w payload c"
  by (simp add: settled_def)


lemma fan_first:
  assumes "en \<Longrightarrow> \<exists>evs. f w = (r0, w\<lparr>log := log w @ evs\<rparr>) \<and> posts_of evs = [c]"
  shows "\<exists>e. (if en then (let (r, w') = f w in ([r], w')) else ([], w))
              = ((if en then [r0] else []), w\<lparr>log := log w @ e\<rparr>) \<and>
             posts_of e = (if en then [c] else []) \<and> (\<not> en \<longrightarrow> e = [])"
proof (cases en)
  case True
  from assms [OF True] obtain evs where
    a: "f w = (r0, w\<lparr>log := log w @ evs\<rparr>)" and b: "posts_of evs = [c]" by blast
  show ?thesis
    apply (rule exI [of _ evs])
    apply (simp add: True a b)
    done
next
  case False
  show ?thesis
    apply (rule exI [of _ "[]"])
    apply (simp add: False)
    done
qed

lemma fan_step:
  assumes "en \<Longrightarrow> \<exists>evs. f (w\<lparr>log := log w @ pre\<rparr>)
                         = (r0, w\<lparr>log := log w @ pre @ evs\<rparr>) \<and> posts_of evs = [c]"
  shows "\<exists>e. (if en then (let (r, w') = f (w\<lparr>log := log w @ pre\<rparr>) in (ps @ [r], w'))
               else (ps, w\<lparr>log := log w @ pre\<rparr>))
              = (ps @ (if en then [r0] else []), w\<lparr>log := log w @ pre @ e\<rparr>) \<and>
             posts_of e = (if en then [c] else []) \<and> (\<not> en \<longrightarrow> e = [])"
proof (cases en)
  case True
  from assms [OF True] obtain evs where
    a: "f (w\<lparr>log := log w @ pre\<rparr>) = (r0, w\<lparr>log := log w @ pre @ evs\<rparr>)"
    and b: "posts_of evs = [c]" by blast
  show ?thesis
    apply (rule exI [of _ evs])
    apply (simp add: True a b)
    done
next
  case False
  show ?thesis
    apply (rule exI [of _ "[]"])
    apply (simp add: False)
    done
qed

lemma sendTelegram_enabled_after:
  assumes "channel_enabled (notifications (scraper payload)) Telegram"
  shows "\<exists>evs. sendTelegramNotification secrets payload (w\<lparr>log := log w @ pre\<rparr>)
            = (settled w payload Telegram, w\<lparr>log := log w @ pre @ evs\<rparr>) \<and>
           posts_of evs = [Telegram]"
  using sendTelegram_enabled [OF assms, of secrets "w\<lparr>log := log w @ pre\<rparr>"] by simp

lemma sendPushover_enabled_after:
  assumes "channel_enabled (notifications (scraper payload)) Pushover"
  shows "\<exists>evs. sendPushoverNotification secrets payload (w\<lparr>log := log w @ pre\<rparr>)
            = (settled w payload Pushover, w\<lparr>log := log w @ pre @ evs\<rparr>) \<and>
           posts_of evs = [Pushover]"
  using sendPushover_enabled [OF assms, of secrets "w\<lparr>log := log w @ pre\<rparr>"] by simp

lemma push_channels_result:
  "\<exists>evs. push_channels secrets payload w
      = (map (settled w payload)
           (filter (channel_enabled (notifications (scraper payload))) [Slack, Telegram, Pushover]),
         w\<lparr>log := log w @ evs\<rparr>) \<and>
     posts_of evs
       = filter (channel_enabled (notifications (scraper payload))) [Slack, Telegram, Pushover] \<and>
     (filter (channel_enabled (notifications (scraper payload))) [Slack, Telegram, Pushover] = []
        \<longrightarrow> evs = [])"
proof -
  let ?n = "notifications (scraper payload)"
  let ?S = "channel_enabled ?n Slack"
  let ?T = "channel_enabled ?n Telegram"
  let ?P = "channel_enabled ?n Pushover"
  let ?p1 = "if ?S then [settled w payload Slack] else []"
  let ?p2 = "?p1 @ (if ?T then [settled w payload Telegram] else [])"
  have "\<exists>e. (if ?S then (let (r, w') = sendSlackNotification secrets payload w in ([r], w'))
                else ([], w))
              = (?p1, w\<lparr>log := log w @ e\<rparr>) \<and>
             posts_of e = (if ?S then [Slack] else []) \<and> (\<not> ?S \<longrightarrow> e = [])"
    by (rule fan_first [where f = "sendSlackNotification secrets payload"])
       (rule sendSlack_enabled)
  then obtain e1 where 1:
    "(if ?S then (let (r, w') = sendSlackNotification secrets payload w in ([r], w'))
      else ([], w))
     = (?p1, w\<lparr>log := log w @ e1\<rparr>) \<and>
     posts_of e1 = (if ?S then [Slack] else []) \<and> (\<not> ?S \<longrightarrow> e1 = [])" ..
  let ?w1 = "w\<lparr>log := log w @ e1\<rparr>"
  have "\<exists>e. (if ?T then (let (r, w') = sendTelegramNotification secrets payload ?w1
                           in (?p1 @ [r], w'))
                else (?p1, ?w1))
              = (?p2, w\<lparr>log := log w @ e1 @ e\<rparr>) \<and>
             posts_of e = (if ?T then [Telegram] else []) \<and> (\<not> ?T \<longrightarrow> e = [])"
    by (rule fan_step [where f = "sendTelegramNotification secrets payload"])
       (rule sendTelegram_enabled_after)
  then obtain e2 where 2:
    "(if ?T then (let (r, w') = sendTelegramNotification secrets payload ?w1
                  in (?p1 @ [r], w'))
      else (?p1, ?w1))
     = (?p2, w\<lparr>log := log w @ e1 @ e2\<rparr>) \<and>
     posts_of e2 = (if ?T then [Telegram] else []) \<and> (\<not> ?T \<longrightarrow> e2 = [])" ..
  let ?w2 = "w\<lparr>log := log w @ e1 @ e2\<rparr>"
  have "\<exists>e. (if ?P then (let (r, w') = sendPushoverNotification secrets payload
                                           (w\<lparr>log := log w @ (e1 @ e2)\<rparr>)
                           in (?p2 @ [r], w'))
                else (?p2, w\<lparr>log := log w @ (e1 @ e2)\<rparr>))
              = (?p2 @ (if ?P then [settled w payload Pushover] else []),
                 w\<lparr>log := log w @ (e1 @ e2) @ e\<rparr>) \<and>
             posts_of e = (if ?P then [Pushover] else []) \<and> (\<not> ?P \<longrightarrow> e = [])"
    by (rule fan_step [where f = "sendPushoverNotification secrets payload"])
       (rule sendPushover_enabled_after)
  then obtain e3 where 3:
    "(if ?P then (let (r, w') = sendPushoverNotification secrets payload
                                  (w\<lparr>log := log w @ (e1 @ e2)\<rparr>)
                  in (?p2 @ [r], w'))
      else (?p2, w\<lparr>log := log w @ (e1 @ e2)\<rparr>))
     = (?p2 @ (if ?P then [settled w payload Pushover] else []),
        w\<lparr>log := log w @ (e1 @ e2) @ e3\<rparr>) \<and>
     posts_of e3 = (if ?P then [Pushover] else []) \<and> (\<not> ?P \<longrightarrow> e3 = [])" ..
  have pc: "push_channels secrets payload w
      = (?p2 @ (if ?P then [settled w payload Pushover] else []),
         w\<lparr>log := log w @ (e1 @ e2) @ e3\<rparr>)"
    unfolding push_channels_def Let_def
    by (simp add: 1 [THEN conjunct1, unfolded Let_def] 2 [THEN conjunct1, unfolded Let_def]
          3 [THEN conjunct1, unfolded Let_def])
  show ?thesis
  proof (rule exI [of _ "e1 @ e2 @ e3"], intro conjI)
    show "push_channels secrets payload w
      = (map (settled w payload)
           (filter (channel_enabled ?n) [Slack, Telegram, Pushover]),
         w\<lparr>log := log w @ (e1 @ e2 @ e3)\<rparr>)"
      by (simp add: pc)
    show "posts_of (e1 @ e2 @ e3)
       = filter (channel_enabled ?n) [Slack, Telegram, Pushover]"
      using 1 2 3 by simp
    show "filter (channel_enabled ?n) [Slack, Telegram, Pushover] = [] \<longrightarrow> e1 @ e2 @ e3 = []"
      using 1 [THEN conjunct2] 2 [THEN conjunct2] 3 [THEN conjunct2] by (simp split: if_splits)
  qed
qed


text \<open>
  C6. Dispatch never rejects: it resolves whatever the channels do. The settled outcomes
  are one per enabled channel, in the order Slack, Telegram, Pushover, and each is the
  outcome of that channel's own post; exactly the enabled channels are posted to; and
  with no enabled channel the world is left as it was.
\<close>

theorem sendNotifications_isolated:
  "fst (NotificationService_sendNotifications secrets payload w) = Inr () \<and>
   fst (push_channels secrets payload w)
     = map (settled w payload)
         (filter (channel_enabled (notifications (scraper payload))) [Slack, Telegram, Pushover]) \<and>
   posts_of (emitted w (snd (NotificationService_sendNotifications secrets payload w)))
     = filter (channel_enabled (notifications (scraper payload))) [Slack, Telegram, Pushover] \<and>
   (filter (channel_enabled (notifications (scraper payload))) [Slack, Telegram, Pushover] = []
      \<longrightarrow> snd (NotificationService_sendNotifications secrets payload w) = w)"
proof -
  let ?on = "filter (channel_enabled (notifications (scraper payload))) [Slack, Telegram, Pushover]"
  from push_channels_result [of secrets payload w] obtain evs where
    pc: "push_channels secrets payload w = (map (settled w payload) ?on, w\<lparr>log := log w @ evs\<rparr>)"
    and po: "posts_of evs = ?on" and em: "?on = [] \<longrightarrow> evs = []"
    by blast
  let ?fails = "map (\<lambda>r. ConsoleError ''Notification failed'')
                  (filter isl (map (settled w payload) ?on))"
  have res: "NotificationService_sendNotifications secrets payload w
     = (Inr (), w\<lparr>log := log w @ evs @ ?fails\<rparr>)"
    by (simp add: NotificationService_sendNotifications_def pc report_rejected_world)
  have e: "emitted w (snd (NotificationService_sendNotifications secrets payload w)) = evs @ ?fails"
    by (simp add: res emitted_def)
  show ?thesis
  proof (intro conjI impI)
    show "fst (NotificationService_sendNotifications secrets payload w) = Inr ()"
      by (simp add: res)
    show "fst (push_channels secrets payload w) = map (settled w payload) ?on"
      by (simp add: pc)
    show "posts_of (emitted w (snd (NotificationService_sendNotifications secrets payload w))) = ?on"
      by (simp only: e posts_of_simps posts_of_console po append_Nil2)
    assume z: "?on = []"
    with em have "evs = []" by blast
    with z show "snd (NotificationService_sendNotifications secrets payload w) = w"
      by (simp add: res)
  qed
qed

theorem sendNotifications_isolated_witness:
  "fst (NotificationService_sendNotifications example_secrets
          (new_listing_payload (example_watcher ''w1'') (example_listing ''w1'' ''1'' 4500))
          ((example_world [])\<lparr>axios := (\<lambda>c i. if c = Slack then Some (Error ''timeout'') else None)\<rparr>))
     = Inr () \<and>
   fst (push_channels example_secrets
          (new_listing_payload (example_watcher ''w1'') (example_listing ''w1'' ''1'' 4500))
          ((example_world [])\<lparr>axios := (\<lambda>c i. if c = Slack then Some (Error ''timeout'') else None)\<rparr>))
     = [Inl (Error ''timeout''), Inr ()] \<and>
   posts_of (emitted
          ((example_world [])\<lparr>axios := (\<lambda>c i. if c = Slack then Some (Error ''timeout'') else None)\<rparr>)
          (snd (NotificationService_sendNotifications example_secrets
             (new_listing_payload (example_watcher ''w1'') (example_listing ''w1'' ''1'' 4500))
             ((example_world [])\<lparr>axios := (\<lambda>c i. if c = Slack then Some (Error ''timeout'') else None)\<rparr>))))
     = [Slack, Telegram] \<and>
   filter (channel_enabled (notifications silent_watcher)) [Slack, Telegram, Pushover] = [] \<and>
   snd (NotificationService_sendNotifications example_secrets
          (new_listing_payload silent_watcher (example_listing ''w2'' ''1'' 4500))
          (example_world []))
     = example_world []"
proof -
  let ?w = "(example_world [])\<lparr>axios := (\<lambda>c i. if c = Slack then Some (Error ''timeout'') else None)\<rparr>"
  let ?p = "new_listing_payload (example_watcher ''w1'') (example_listing ''w1'' ''1'' 4500)"
  let ?q = "new_listing_payload silent_watcher (example_listing ''w2'' ''1'' 4500)"
  have on: "filter (channel_enabled (notifications (scraper ?p))) [Slack, Telegram, Pushover]
              = [Slack, Telegram]"
    by (simp add: new_listing_payload_def example_watcher_def example_notifications_def
          channel_enabled_def)
  have off: "filter (channel_enabled (notifications silent_watcher)) [Slack, Telegram, Pushover] = []"
    by (simp add: silent_watcher_def channel_enabled_def)
  have off': "scraper ?q = silent_watcher" by (simp add: new_listing_payload_def)
  have st: "map (settled ?w ?p) [Slack, Telegram] = [Inl (Error ''timeout''), Inr ()]"
    by (simp add: settled_def example_world_def)
  note A = sendNotifications_isolated [of example_secrets ?p ?w, unfolded on st]
  note B = sendNotifications_isolated [of example_secrets ?q "example_world []", unfolded off' off]
  from A B off show ?thesis by simp
qed

section \<open>What each operation adds to the log\<close>

lemma steady_refl [simp]: "steady w w"
  by (simp add: steady_def)

lemma steady_trans: "steady w w1 \<Longrightarrow> steady w1 w2 \<Longrightarrow> steady w w2"
  by (simp add: steady_def)

lemma adds_refl [simp]: "adds [] w w"
  by (simp add: adds_def)

lemma adds_trans: "adds r1 w w1 \<Longrightarrow> adds r2 w1 w2 \<Longrightarrow> adds (r1 @ r2) w w2"
  by (auto simp: adds_def steady_def)

lemma adds_trans0: "adds [] w w1 \<Longrightarrow> adds r w1 w2 \<Longrightarrow> adds r w w2"
  using adds_trans [of "[]" w w1 r w2] by simp

lemma adds_trans1: "adds r w w1 \<Longrightarrow> adds [] w1 w2 \<Longrightarrow> adds r w w2"
  using adds_trans [of r w w1 "[]" w2] by simp

lemma adds_console: "adds r w w1 \<Longrightarrow> adds r w (console_error m w1)"
  by (auto simp: adds_def steady_def is_resource_def is_run_def is_scheduler_def)

lemma adds_fields:
  "adds [] w (w\<lparr>reads := n\<rparr>)" "adds [] w (w\<lparr>table := t\<rparr>)" "adds [] w (w\<lparr>dynamo := d\<rparr>)"
  by (simp_all add: adds_def steady_def)

lemma adds_emit:
  "is_resource e \<or> is_run e \<Longrightarrow> adds [e] w (emit e w)"
  by (cases e) (simp_all add: adds_def steady_def is_resource_def is_run_def is_scheduler_def)

lemma adds_steady: "adds r w w' \<Longrightarrow> steady w w'"
  by (simp add: adds_def)

lemma Date_now_log: "Date_now w = (t, w1) \<Longrightarrow> log w1 = log w"
  by (auto simp: Date_now_def)

lemma docClient_send_adds: "docClient_send w = (x, w0) \<Longrightarrow> adds [] w w0"
  by (auto simp: docClient_send_def adds_def steady_def split: list.splits send_outcome.splits)

lemma getListing_adds: "getListing a b w = (r, w1) \<Longrightarrow> adds [] w w1"
proof -
  assume a: "getListing a b w = (r, w1)"
  obtain x w0 where s: "docClient_send w = (x, w0)" by (cases "docClient_send w")
  then have 0: "adds [] w w0" by (rule docClient_send_adds)
  from a s have "w1 = w0 \<or> w1 = console_error ''Failed to get listing'' w0"
    by (cases x) (simp_all add: getListing_def)
  with 0 show ?thesis by (auto intro: adds_console)
qed

lemma saveListing_adds: "saveListing l w = (r, w1) \<Longrightarrow> adds [] w w1"
proof -
  assume a: "saveListing l w = (r, w1)"
  obtain x w0 where s: "docClient_send (w\<lparr>reads := Suc (reads w)\<rparr>) = (x, w0)"
    by (cases "docClient_send (w\<lparr>reads := Suc (reads w)\<rparr>)")
  have 0: "adds [] w w0"
    by (rule adds_trans0 [OF adds_fields(1) docClient_send_adds [OF s]])
  from a s have "adds [] w0 w1"
    by (cases x) (auto simp: saveListing_def Date_now_def intro: adds_console adds_fields)
  with 0 show ?thesis by (rule adds_trans0)
qed

lemma updateListingPrice_adds: "updateListingPrice a b p s w = (r, w1) \<Longrightarrow> adds [] w w1"
proof -
  assume a: "updateListingPrice a b p s w = (r, w1)"
  obtain g w0 where g: "getListing a b w = (g, w0)" by (cases "getListing a b w")
  then have 0: "adds [] w w0" by (rule getListing_adds)
  show ?thesis
  proof (cases g)
    case (Inl e)
    with a g have "w1 = console_error ''Failed to update listing price'' w0"
      by (simp add: updateListingPrice_def)
    with 0 show ?thesis by (simp add: adds_console)
  next
    case (Inr cur)
    show ?thesis
    proof (cases cur)
      case None
      with a g Inr have "w1 = w0" by (simp add: updateListingPrice_def)
      with 0 show ?thesis by simp
    next
      case (Some c)
      obtain x w3 where s: "docClient_send (w0\<lparr>reads := Suc (reads w0)\<rparr>) = (x, w3)"
        by (cases "docClient_send (w0\<lparr>reads := Suc (reads w0)\<rparr>)")
      have 3: "adds [] w0 w3"
        by (rule adds_trans0 [OF adds_fields(1) docClient_send_adds [OF s]])
      from a g Inr Some s have "adds [] w3 w1"
        by (cases x)
           (auto simp: updateListingPrice_def Date_now_def Let_def
                 intro: adds_console adds_fields)
      with 3 have "adds [] w0 w1" by (rule adds_trans0)
      with 0 show ?thesis by (rule adds_trans0)
    qed
  qed
qed

lemma processListing_world:
  "snd (snd (processListing l c n d w))
     = (case getListing (scraperId l) (listingId l) w of
          (Inl e, w1) \<Rightarrow> console_error ''Error processing listing'' w1
        | (Inr None, w1) \<Rightarrow>
            (case saveListing l w1 of
               (Inl e, w2) \<Rightarrow> console_error ''Error processing listing'' w2
             | (Inr u, w2) \<Rightarrow> w2)
        | (Inr (Some ex), w1) \<Rightarrow>
            (case updateListingPrice (scraperId l) (listingId l) (price l) (lastSeen l) w1 of
               (Inl e, w2) \<Rightarrow> console_error ''Error processing listing'' w2
             | (Inr u, w2) \<Rightarrow> w2))"
  by (simp add: processListing_def Let_def split: prod.split sum.split option.split)

lemma processListing_adds: "processListing l c n d w = (n', d', w1) \<Longrightarrow> adds [] w w1"
proof -
  assume a: "processListing l c n d w = (n', d', w1)"
  then have w1: "w1 = snd (snd (processListing l c n d w))" by simp
  obtain g w0 where g: "getListing (scraperId l) (listingId l) w = (g, w0)"
    by (cases "getListing (scraperId l) (listingId l) w")
  then have 0: "adds [] w w0" by (rule getListing_adds)
  have "adds [] w0 w1"
  proof (cases g)
    case (Inl e)
    with g have "w1 = console_error ''Error processing listing'' w0"
      by (simp add: w1 processListing_world)
    then show ?thesis by (simp add: adds_console)
  next
    case (Inr cur)
    show ?thesis
    proof (cases cur)
      case None
      obtain x w2 where s: "saveListing l w0 = (x, w2)" by (cases "saveListing l w0")
      then have 2: "adds [] w0 w2" by (rule saveListing_adds)
      from g Inr None s have "w1 = w2 \<or> w1 = console_error ''Error processing listing'' w2"
        by (cases x) (simp_all add: w1 processListing_world)
      with 2 show ?thesis by (auto intro: adds_console)
    next
      case (Some ex)
      obtain x w2 where s:
        "updateListingPrice (scraperId l) (listingId l) (price l) (lastSeen l) w0 = (x, w2)"
        by (cases "updateListingPrice (scraperId l) (listingId l) (price l) (lastSeen l) w0")
      then have 2: "adds [] w0 w2" by (rule updateListingPrice_adds)
      from g Inr Some s have "w1 = w2 \<or> w1 = console_error ''Error processing listing'' w2"
        by (cases x) (simp_all add: w1 processListing_world)
      with 2 show ?thesis by (auto intro: adds_console)
    qed
  qed
  with 0 show ?thesis by (rule adds_trans0)
qed

lemma processListings_from_adds:
  "processListings_from ls c n d w = (n', d', w1) \<Longrightarrow> adds [] w w1"
proof (induction ls arbitrary: n d w)
  case Nil
  then show ?case by simp
next
  case (Cons l ls)
  obtain n1 d1 w0 where p: "processListing l c n d w = (n1, d1, w0)"
    by (cases "processListing l c n d w")
  with Cons.prems have "processListings_from ls c n1 d1 w0 = (n', d', w1)" by simp
  then have "adds [] w0 w1" by (rule Cons.IH)
  with processListing_adds [OF p] show ?case by (rule adds_trans0)
qed


lemma sendSlack_adds: "adds [] w (snd (sendSlackNotification s p w))"
  by (auto simp: sendSlackNotification_def Let_def adds_def steady_def is_resource_def is_run_def
        is_scheduler_def split: option.splits)

lemma sendTelegram_adds: "adds [] w (snd (sendTelegramNotification s p w))"
  by (auto simp: sendTelegramNotification_def Let_def adds_def steady_def is_resource_def is_run_def
        is_scheduler_def split: option.splits)

lemma sendPushover_adds: "adds [] w (snd (sendPushoverNotification s p w))"
  by (auto simp: sendPushoverNotification_def Let_def adds_def steady_def is_resource_def is_run_def
        is_scheduler_def split: option.splits)

lemma push_channels_world:
  "snd (push_channels s p w)
     = (let n = notifications (scraper p);
            w1 = (if channel_enabled n Slack then snd (sendSlackNotification s p w) else w);
            w2 = (if channel_enabled n Telegram then snd (sendTelegramNotification s p w1) else w1)
        in (if channel_enabled n Pushover then snd (sendPushoverNotification s p w2) else w2))"
  by (simp add: push_channels_def Let_def case_prod_beta)

lemma push_channels_adds: "adds [] w (snd (push_channels s p w))"
proof -
  let ?n = "notifications (scraper p)"
  let ?w1 = "if channel_enabled ?n Slack then snd (sendSlackNotification s p w) else w"
  let ?w2 = "if channel_enabled ?n Telegram then snd (sendTelegramNotification s p ?w1) else ?w1"
  let ?w3 = "if channel_enabled ?n Pushover then snd (sendPushoverNotification s p ?w2) else ?w2"
  have 1: "adds [] w ?w1" by (simp add: sendSlack_adds)
  have 2: "adds [] ?w1 ?w2" by (simp add: sendTelegram_adds)
  have 3: "adds [] ?w2 ?w3" by (simp add: sendPushover_adds)
  have "adds [] w ?w3" by (rule adds_trans0 [OF adds_trans0 [OF 1 2] 3])
  then show ?thesis by (simp add: push_channels_world Let_def)
qed

lemma report_rejected_adds: "adds [] w (report_rejected rs w)"
  by (simp add: report_rejected_world adds_def steady_def is_resource_def is_run_def
        is_scheduler_def)

lemma NotificationService_adds: "adds [] w (snd (NotificationService_sendNotifications s p w))"
proof -
  have "snd (NotificationService_sendNotifications s p w)
          = report_rejected (fst (push_channels s p w)) (snd (push_channels s p w))"
    by (simp add: NotificationService_sendNotifications_def case_prod_beta)
  then show ?thesis
    using adds_trans0 [OF push_channels_adds report_rejected_adds] by simp
qed

lemma notify_each_adds: "adds [] w (notify_each s ps w)"
proof (induction ps arbitrary: w)
  case Nil
  show ?case by simp
next
  case (Cons p ps)
  show ?case
    using adds_trans0 [OF NotificationService_adds Cons.IH] by simp
qed

lemma ScraperService_sendNotifications_adds:
  "adds [] w (ScraperService_sendNotifications n d c s w)"
  by (simp add: ScraperService_sendNotifications_def notify_each_adds)

lemma playwright_call_adds:
  "playwright_call w = (r, w1) \<Longrightarrow> adds [] w w1 \<and> (playwright w = [] \<longrightarrow> r = None)"
  by (auto simp: playwright_call_def adds_def steady_def split: list.splits)

lemma initialize_adds:
  assumes "initialize s w = (r, s', w')"
  shows "((r = Inr () \<and> browser s' \<and> adds [BrowserLaunched] w w') \<or>
          (isl r \<and> s' = s \<and> adds [] w w')) \<and>
         (playwright w = [] \<longrightarrow> r = Inr ())"
proof -
  obtain x w1 where c: "playwright_call w = (x, w1)" by (cases "playwright_call w")
  from playwright_call_adds [OF c]
  have l: "adds [] w w1" and ok: "playwright w = [] \<longrightarrow> x = None" by simp_all
  show ?thesis
  proof (cases x)
    case None
    with assms c have "r = Inr ()" "s' = s\<lparr>browser := True\<rparr>" "w' = emit BrowserLaunched w1"
      by (simp_all add: initialize_def)
    moreover have "adds [BrowserLaunched] w1 (emit BrowserLaunched w1)"
      by (rule adds_emit) (simp add: is_resource_def)
    ultimately show ?thesis using adds_trans0 [OF l] by simp
  next
    case (Some e)
    with assms c have "r = Inl e" "s' = s" "w' = w1" by (simp_all add: initialize_def)
    with l ok Some show ?thesis by simp
  qed
qed

lemma cleanup_adds:
  assumes "cleanup s w = (r, s', w')"
  shows "if browser s
         then adds [BrowserCloseCalled] w w' \<and> (playwright w = [] \<longrightarrow> r = Inr ())
         else r = Inr () \<and> w' = w"
proof (cases "browser s")
  case False
  with assms show ?thesis by (simp add: cleanup_def)
next
  case True
  obtain x w1 where c: "playwright_call (emit BrowserCloseCalled w) = (x, w1)"
    by (cases "playwright_call (emit BrowserCloseCalled w)")
  from playwright_call_adds [OF c]
  have l: "adds [] (emit BrowserCloseCalled w) w1" and ok: "playwright w = [] \<longrightarrow> x = None"
    by simp_all
  have e: "adds [BrowserCloseCalled] w (emit BrowserCloseCalled w)"
    by (rule adds_emit) (simp add: is_resource_def)
  from assms c True have "w' = w1" "x = None \<longrightarrow> r = Inr ()"
    by (cases x; simp add: cleanup_def)+
  with adds_trans1 [OF e l] ok True show ?thesis by simp
qed

lemma scrape_adds:
  assumes "browser s" and "scrape s c k w = (r, s', w')"
  shows "browser s' \<and>
         (adds [] w w' \<or> adds [PageOpened, PageWork (config_id c), PageCloseCalled] w w') \<and>
         (playwright w = [] \<longrightarrow>
            adds [PageOpened, PageWork (config_id c), PageCloseCalled] w w')"
proof -
  obtain x w2 where n: "playwright_call w = (x, w2)" by (cases "playwright_call w")
  from playwright_call_adds [OF n]
  have l2: "adds [] w w2" and ok: "playwright w = [] \<longrightarrow> x = None" by simp_all
  show ?thesis
  proof (cases x)
    case (Some e)
    with assms n have "s' = s" "w' = w2" by (simp_all add: scrape_def)
    with l2 assms(1) ok Some show ?thesis by simp
  next
    case None
    let ?w3 = "emit (PageWork (config_id c)) (emit PageOpened w2)"
    let ?w4 = "case marketplace_page ?w3 (config_id c) of
                 Inl e \<Rightarrow> console_error ''Error scraping Facebook Marketplace'' ?w3
               | Inr ls \<Rightarrow> ?w3"
    obtain y w5 where cl: "playwright_call (emit PageCloseCalled ?w4) = (y, w5)"
      by (cases "playwright_call (emit PageCloseCalled ?w4)")
    from playwright_call_adds [OF cl] have l5: "adds [] (emit PageCloseCalled ?w4) w5" by simp
    have a1: "adds [PageOpened] w2 (emit PageOpened w2)"
      by (rule adds_emit) (simp add: is_resource_def)
    have a2: "adds [PageWork (config_id c)] (emit PageOpened w2) ?w3"
      by (rule adds_emit) (simp add: is_run_def)
    have a3: "adds [] ?w3 ?w4"
      by (cases "marketplace_page ?w3 (config_id c)") (simp_all add: adds_console)
    have a4: "adds [PageCloseCalled] ?w4 (emit PageCloseCalled ?w4)"
      by (rule adds_emit) (simp add: is_resource_def)
    have "adds ([PageOpened] @ [PageWork (config_id c)]) w2 ?w3"
      by (rule adds_trans [OF a1 a2])
    then have "adds ([PageOpened] @ [PageWork (config_id c)]) w2 ?w4"
      using a3 by (rule adds_trans1)
    then have "adds (([PageOpened] @ [PageWork (config_id c)]) @ [PageCloseCalled]) w2
                 (emit PageCloseCalled ?w4)"
      using a4 by (rule adds_trans)
    then have "adds (([PageOpened] @ [PageWork (config_id c)]) @ [PageCloseCalled]) w2 w5"
      using l5 by (rule adds_trans1)
    with l2 have full: "adds [PageOpened, PageWork (config_id c), PageCloseCalled] w w5"
      using adds_trans0 by fastforce
    from assms n None cl have "s' = s" "w' = w5"
      by (cases y; cases "marketplace_page ?w3 (config_id c)";
          simp add: scrape_def Let_def)+
    with full assms(1) show ?thesis by simp
  qed
qed

lemma find_holds: "find P xs = Some x \<Longrightarrow> P x"
  by (auto simp: find_Some_iff)

lemma ready_fields [simp]:
  "ready (w\<lparr>reads := n\<rparr>) sid = ready w sid"
  "ready (emit e w) sid = ready w sid"
  "ready (console_error m w) sid = ready w sid"
  by (simp_all add: ready_def)

lemma steady_ready: "steady w w' \<Longrightarrow> ready w sid \<Longrightarrow> ready w' sid"
  by (simp add: steady_def ready_def)

lemma executeScraper_try_ready:
  assumes rd: "ready w sid" and a: "executeScraper_try sid t w = (body, sc, w1)"
  shows "\<exists>s. sc = Some s \<and> browser s \<and>
             adds [BrowserLaunched, PageOpened, PageWork sid, PageCloseCalled] w w1"
proof -
  from rd obtain cfg where cfg: "ssm w = Inr cfg"
    by (cases "ssm w") (simp_all add: ready_def)
  from rd cfg obtain c where c: "find (\<lambda>s. config_id s = sid) (scrapers cfg) = Some c"
    by (cases "find (\<lambda>s. config_id s = sid) (scrapers cfg)") (simp_all add: ready_def)
  from rd cfg c have en: "enabled c" and fb: "marketplace c = Facebook"
    by (simp_all add: ready_def)
  from rd obtain secrets where sec: "secretsManager w = Inr secrets"
    by (cases "secretsManager w") (simp_all add: ready_def)
  from rd have pw: "playwright w = []" by (simp add: ready_def)
  from find_holds [OF c] have id: "config_id c = sid" .
  from cfg have gc: "getConfig w = (Inr cfg, w)" by (simp add: getConfig_def)
  obtain i s w2 where ini: "initialize \<lparr>browser = False\<rparr> w = (i, s, w2)"
    by (cases "initialize \<lparr>browser = False\<rparr> w") auto
  from initialize_adds [OF ini] pw
  have i: "i = Inr ()" and bs: "browser s" and l2: "adds [BrowserLaunched] w w2"
    by auto
  from adds_steady [OF l2] sec pw
  have sec2: "secretsManager w2 = Inr secrets" and pw2: "playwright w2 = []"
    by (simp_all add: steady_def)
  then have gs: "getSecrets w2 = (Inr secrets, w2)" by (simp add: getSecrets_def)
  obtain r s' w4 where scr: "scrape s c (secrets ''facebook-cookies'') w2 = (r, s', w4)"
    by (cases "scrape s c (secrets ''facebook-cookies'') w2") auto
  from scrape_adds [OF bs scr] pw2 id
  have bs': "browser s'" and l4: "adds [PageOpened, PageWork sid, PageCloseCalled] w2 w4"
    by simp_all
  from adds_trans [OF l2 l4]
  have l24: "adds [BrowserLaunched, PageOpened, PageWork sid, PageCloseCalled] w w4" by simp
  show ?thesis
  proof (cases r)
    case (Inl e)
    with a gc c en fb ini i gs scr have "sc = Some s'" "w1 = w4"
      by (simp_all add: executeScraper_try_def)
    with bs' l24 show ?thesis by simp
  next
    case (Inr ls)
    obtain n d w5 where pl: "processListings ls c w4 = (n, d, w5)"
      by (cases "processListings ls c w4") auto
    then have l5: "adds [] w4 w5"
      using processListings_from_adds by (simp add: processListings_def)
    let ?w6 = "if n \<noteq> [] \<or> d \<noteq> []
               then ScraperService_sendNotifications n d c secrets w5 else w5"
    have l6: "adds [] w5 ?w6"
      by (simp add: ScraperService_sendNotifications_adds)
    from a gc c en fb ini i gs scr Inr pl
    have sc: "sc = Some s'" and w1: "w1 = ?w6\<lparr>reads := Suc (reads ?w6)\<rparr>"
      by (auto simp: executeScraper_try_def Date_now_def Let_def split: if_splits)
    have "adds [] w4 ?w6" by (rule adds_trans0 [OF l5 l6])
    then have "adds [] w4 w1" unfolding w1 by (rule adds_trans0 [OF _ adds_fields(1)])
    with l24 have "adds [BrowserLaunched, PageOpened, PageWork sid, PageCloseCalled] w w1"
      by (rule adds_trans1)
    with sc bs' show ?thesis by simp
  qed
qed

lemma executeScraper_try_adds:
  assumes a: "executeScraper_try sid t w = (body, sc, w1)"
  shows "case sc of
           None \<Rightarrow> adds [] w w1
         | Some s \<Rightarrow>
             if browser s
             then adds [BrowserLaunched] w w1 \<or>
                  adds [BrowserLaunched, PageOpened, PageWork sid, PageCloseCalled] w w1
             else adds [] w w1"
proof (cases "ssm w")
  case (Inl e)
  with a have "sc = None" "w1 = console_error ''Failed to load configuration'' w"
    by (simp_all add: executeScraper_try_def getConfig_def)
  then show ?thesis by (simp add: adds_console)
next
  case (Inr cfg)
  then have gc: "getConfig w = (Inr cfg, w)" by (simp add: getConfig_def)
  show ?thesis
  proof (cases "find (\<lambda>s. config_id s = sid) (scrapers cfg)")
    case None
    with a gc have "sc = None" "w1 = w" by (simp_all add: executeScraper_try_def)
    then show ?thesis by simp
  next
    case (Some c)
    from find_holds [OF Some] have id: "config_id c = sid" .
    show ?thesis
    proof (cases "enabled c")
      case False
      with a gc Some have "sc = None" "w1 = w\<lparr>reads := Suc (reads w)\<rparr>"
        by (auto simp: executeScraper_try_def Date_now_def)
      then show ?thesis by (simp add: adds_fields)
    next
      case True
      show ?thesis
      proof (cases "marketplace c = Facebook")
        case False
        with a gc Some True have "sc = None" "w1 = w"
          by (simp_all add: executeScraper_try_def)
        then show ?thesis by simp
      next
        case fb: True
        obtain i s w2 where ini: "initialize \<lparr>browser = False\<rparr> w = (i, s, w2)"
          by (cases "initialize \<lparr>browser = False\<rparr> w") auto
        from initialize_adds [OF ini]
        have "(i = Inr () \<and> browser s \<and> adds [BrowserLaunched] w w2) \<or>
              (isl i \<and> s = \<lparr>browser = False\<rparr> \<and> adds [] w w2)" by simp
        then show ?thesis
        proof
          assume "isl i \<and> s = \<lparr>browser = False\<rparr> \<and> adds [] w w2"
          then obtain e where f: "i = Inl e" "s = \<lparr>browser = False\<rparr>" "adds [] w w2"
            by (cases i) auto
          with a gc Some True fb ini have "sc = Some s" "w1 = w2"
            by (simp_all add: executeScraper_try_def)
          with f show ?thesis by simp
        next
          assume ok: "i = Inr () \<and> browser s \<and> adds [BrowserLaunched] w w2"
          then have i: "i = Inr ()" and bs: "browser s" and l2: "adds [BrowserLaunched] w w2"
            by simp_all
          show ?thesis
          proof (cases "secretsManager w2")
            case (Inl e)
            with a gc Some True fb ini i
            have "sc = Some s" "w1 = console_error ''Failed to load secrets'' w2"
              by (simp_all add: executeScraper_try_def getSecrets_def)
            with bs l2 show ?thesis by (simp add: adds_console)
          next
            case (Inr secrets)
            then have gs: "getSecrets w2 = (Inr secrets, w2)" by (simp add: getSecrets_def)
            obtain r s' w4 where scr:
              "scrape s c (secrets ''facebook-cookies'') w2 = (r, s', w4)"
              by (cases "scrape s c (secrets ''facebook-cookies'') w2") auto
            from scrape_adds [OF bs scr] id
            have bs': "browser s'"
              and l4: "adds [] w2 w4 \<or> adds [PageOpened, PageWork sid, PageCloseCalled] w2 w4"
              by simp_all
            from l2 l4 have l24: "adds [BrowserLaunched] w w4 \<or>
                  adds [BrowserLaunched, PageOpened, PageWork sid, PageCloseCalled] w w4"
              using adds_trans [of "[BrowserLaunched]" w w2 "[]" w4]
                    adds_trans [of "[BrowserLaunched]" w w2
                                   "[PageOpened, PageWork sid, PageCloseCalled]" w4]
              by auto
            show ?thesis
            proof (cases r)
              case (Inl e)
              with a gc Some True fb ini i gs scr have "sc = Some s'" "w1 = w4"
                by (simp_all add: executeScraper_try_def)
              with bs' l24 show ?thesis by simp
            next
              case (Inr ls)
              obtain n d w5 where pl: "processListings ls c w4 = (n, d, w5)"
                by (cases "processListings ls c w4") auto
              then have l5: "adds [] w4 w5"
                using processListings_from_adds by (simp add: processListings_def)
              let ?w6 = "if n \<noteq> [] \<or> d \<noteq> []
                         then ScraperService_sendNotifications n d c secrets w5 else w5"
              have l6: "adds [] w5 ?w6"
                by (simp add: ScraperService_sendNotifications_adds)
              from a gc Some True fb ini i gs scr Inr pl
              have sc: "sc = Some s'" and w1: "w1 = ?w6\<lparr>reads := Suc (reads ?w6)\<rparr>"
                by (auto simp: executeScraper_try_def Date_now_def Let_def split: if_splits)
              have "adds [] w4 ?w6" by (rule adds_trans0 [OF l5 l6])
              then have "adds [] w4 w1" unfolding w1 by (rule adds_trans0 [OF _ adds_fields(1)])
              with sc show ?thesis
                using bs' l24 adds_trans1 [of _ w w4 w1] by auto
            qed
          qed
        qed
      qed
    qed
  qed
qed

lemma executeScraper_catch_adds:
  "executeScraper_catch sid t e w = (ret, w1) \<Longrightarrow> adds [] w w1"
  by (auto simp: executeScraper_catch_def Date_now_def adds_def steady_def is_resource_def
        is_run_def is_scheduler_def)

lemma executeScraper_adds:
  assumes a: "executeScraper sid w = (r, w')"
  shows "(\<not> isl r \<and> adds [] w w') \<or>
         adds [BrowserLaunched, BrowserCloseCalled] w w' \<or>
         adds (run_trace sid) w w'"
proof -
  let ?t = "timeline w (reads w)"
  let ?w0 = "w\<lparr>reads := Suc (reads w)\<rparr>"
  have l0: "adds [] w ?w0" by (rule adds_fields)
  obtain body sc w1 where tr: "executeScraper_try sid ?t ?w0 = (body, sc, w1)"
    by (cases "executeScraper_try sid ?t ?w0") auto
  obtain ret w2 where ct:
    "(case body of Inr r \<Rightarrow> (r, w1) | Inl e \<Rightarrow> executeScraper_catch sid ?t e w1) = (ret, w2)"
    by (cases "case body of Inr r \<Rightarrow> (r, w1) | Inl e \<Rightarrow> executeScraper_catch sid ?t e w1")
  have l2: "adds [] w1 w2"
  proof (cases body)
    case (Inl e)
    with ct show ?thesis by (simp add: executeScraper_catch_adds)
  next
    case (Inr v)
    with ct show ?thesis by simp
  qed
  note l1 = executeScraper_try_adds [OF tr]
  show ?thesis
  proof (cases sc)
    case None
    with a tr ct have "r = Inr ret" "w' = w2"
      by (simp_all add: executeScraper_def Date_now_def)
    moreover from l1 None have "adds [] ?w0 w1" by simp
    ultimately show ?thesis
      using adds_trans0 [OF l0] adds_trans0 [OF _ l2] by auto
  next
    case (Some s)
    obtain x s' w3 where cl: "cleanup s w2 = (x, s', w3)" by (cases "cleanup s w2") auto
    from a tr ct Some cl have w': "w' = w3" and r: "isl x \<or> r = Inr ret"
      by (cases x; simp add: executeScraper_def Date_now_def)+
    show ?thesis
    proof (cases "browser s")
      case False
      with cleanup_adds [OF cl] have "x = Inr ()" "w3 = w2" by simp_all
      moreover from l1 Some False have "adds [] ?w0 w1" by simp
      ultimately show ?thesis
        using r w' adds_trans0 [OF l0] adds_trans0 [OF _ l2] by auto
    next
      case True
      with cleanup_adds [OF cl] have l3: "adds [BrowserCloseCalled] w2 w3" by simp
      from l1 Some True have "adds [BrowserLaunched] ?w0 w1 \<or>
          adds [BrowserLaunched, PageOpened, PageWork sid, PageCloseCalled] ?w0 w1" by simp
      then show ?thesis
      proof
        assume "adds [BrowserLaunched] ?w0 w1"
        then have "adds [BrowserLaunched] w w2"
          using adds_trans0 [OF l0] adds_trans1 [OF _ l2] by blast
        from adds_trans [OF this l3] show ?thesis by (simp add: w')
      next
        assume "adds [BrowserLaunched, PageOpened, PageWork sid, PageCloseCalled] ?w0 w1"
        then have "adds [BrowserLaunched, PageOpened, PageWork sid, PageCloseCalled] w w2"
          using adds_trans0 [OF l0] adds_trans1 [OF _ l2] by blast
        from adds_trans [OF this l3] show ?thesis by (simp add: w' run_trace_def)
      qed
    qed
  qed
qed

lemma executeScraper_ready:
  assumes rd: "ready w sid" and a: "executeScraper sid w = (r, w')"
  shows "adds (run_trace sid) w w'"
proof -
  let ?t = "timeline w (reads w)"
  let ?w0 = "w\<lparr>reads := Suc (reads w)\<rparr>"
  have l0: "adds [] w ?w0" by (rule adds_fields)
  from rd have rd0: "ready ?w0 sid" by simp
  obtain body sc w1 where tr: "executeScraper_try sid ?t ?w0 = (body, sc, w1)"
    by (cases "executeScraper_try sid ?t ?w0") auto
  obtain ret w2 where ct:
    "(case body of Inr r \<Rightarrow> (r, w1) | Inl e \<Rightarrow> executeScraper_catch sid ?t e w1) = (ret, w2)"
    by (cases "case body of Inr r \<Rightarrow> (r, w1) | Inl e \<Rightarrow> executeScraper_catch sid ?t e w1")
  have l2: "adds [] w1 w2"
  proof (cases body)
    case (Inl e)
    with ct show ?thesis by (simp add: executeScraper_catch_adds)
  next
    case (Inr v)
    with ct show ?thesis by simp
  qed
  from executeScraper_try_ready [OF rd0 tr] obtain s where
    sc: "sc = Some s" and bs: "browser s"
    and l1: "adds [BrowserLaunched, PageOpened, PageWork sid, PageCloseCalled] ?w0 w1"
    by blast
  obtain x s' w3 where cl: "cleanup s w2 = (x, s', w3)" by (cases "cleanup s w2") auto
  from a tr ct sc cl have w': "w' = w3"
    by (cases x; simp add: executeScraper_def Date_now_def)
  from cleanup_adds [OF cl] bs have l3: "adds [BrowserCloseCalled] w2 w3" by simp
  from l1 have "adds [BrowserLaunched, PageOpened, PageWork sid, PageCloseCalled] w w2"
    using adds_trans0 [OF l0] adds_trans1 [OF _ l2] by blast
  from adds_trans [OF this l3] show ?thesis by (simp add: w' run_trace_def)
qed

lemma adds_emitted:
  "adds r w w' \<Longrightarrow>
     filter is_resource (emitted w w') = filter is_resource r \<and>
     filter is_scheduler (emitted w w') = []"
proof -
  assume "adds r w w'"
  then obtain evs where l: "log w' = log w @ evs"
    and r: "filter (\<lambda>e. is_resource e \<or> is_run e) evs = r"
    and s: "filter is_scheduler evs = []"
    by (auto simp: adds_def)
  have "filter is_resource (filter (\<lambda>e. is_resource e \<or> is_run e) evs) = filter is_resource evs"
    unfolding filter_filter by (rule filter_cong) auto
  with l r s show ?thesis by (simp add: emitted_def)
qed

section \<open>Watch Runner\<close>

text \<open>
  C8. Whatever the outcome of any external call, the resource events of one Watch
  Runner invocation are one of three sequences: none at all; a browser launched and
  then its close called; or a browser launched, a page opened, the page's close called
  and then the browser's close called. So every browser and every page that was
  acquired has had its release invoked, in the reverse order, when the invocation ends.
\<close>

theorem executeScraper_releases:
  "filter is_resource (emitted w (snd (executeScraper sid w)))
     \<in> {[], [BrowserLaunched, BrowserCloseCalled],
         [BrowserLaunched, PageOpened, PageCloseCalled, BrowserCloseCalled]}"
proof -
  obtain r w' where e: "executeScraper sid w = (r, w')" by (cases "executeScraper sid w")
  have "filter is_resource (run_trace sid)
          = [BrowserLaunched, PageOpened, PageCloseCalled, BrowserCloseCalled]"
    "filter is_resource [BrowserLaunched, BrowserCloseCalled]
          = [BrowserLaunched, BrowserCloseCalled]"
    by (simp_all add: run_trace_def is_resource_def)
  with executeScraper_adds [OF e] adds_emitted [of _ w w'] show ?thesis
    by (auto simp: e)
qed

text \<open>
  C5. A watcher that is configured with \<open>enabled = false\<close> gets a successful result
  with empty lists and zero found, and the world afterwards differs only in the two
  clock readings: no store call, no browser call, no post and no log entry. The
  scheduler's list of enabled watchers leaves it out; when that list is empty the
  scheduler returns at once without touching anything, and otherwise the waves it runs
  and the summary it returns are those of that list alone.
\<close>

theorem executeScraper_disabled:
  assumes "ssm w = Inr cfg"
    and "find (\<lambda>s. config_id s = sid) (scrapers cfg) = Some sc"
    and "\<not> enabled sc"
  shows "executeScraper sid w
           = (Inr \<lparr>result_scraperId = sid, success = True, error = None,
                    newListings = [], priceDrops = [], totalFound = 0,
                    executionTime = timeline w (Suc (reads w)) - timeline w (reads w)\<rparr>,
              w\<lparr>reads := Suc (Suc (reads w))\<rparr>) \<and>
         fst (getEnabledScrapers w) = Inr (filter enabled (scrapers cfg)) \<and>
         sc \<notin> set (filter enabled (scrapers cfg)) \<and>
         (filter enabled (scrapers cfg) = [] \<longrightarrow> handler k w = Some (Inr None, w)) \<and>
         (filter enabled (scrapers cfg) \<noteq> [] \<longrightarrow>
            handler k w
              = (case run_batches 0 k (filter enabled (scrapers cfg)) [] w of
                   None \<Rightarrow> None
                 | Some (results, w2) \<Rightarrow>
                     Some (Inr (Some (summarize (filter enabled (scrapers cfg)) results, results)),
                           w2)))"
  using assms
  by (simp add: executeScraper_def executeScraper_try_def getConfig_def Date_now_def
        getEnabledScrapers_def handler_def)

lemma mixed_world_try:
  "executeScraper_try ''w2'' t
     ((example_world [(example_watcher ''w1'')\<lparr>enabled := False\<rparr>, example_watcher ''w2''])
        \<lparr>log := l, reads := Suc 0\<rparr>)
     = (Inr \<lparr>result_scraperId = ''w2'', success = True, error = None,
              newListings = [], priceDrops = [], totalFound = 0,
              executionTime = 1700000001000 - t\<rparr>,
        Some \<lparr>browser = True\<rparr>,
        (example_world [(example_watcher ''w1'')\<lparr>enabled := False\<rparr>, example_watcher ''w2''])
          \<lparr>reads := 2,
           log := l @ [BrowserLaunched, PageOpened, PageWork ''w2'', PageCloseCalled]\<rparr>)"
  by (simp add: executeScraper_try_def example_world_def
        example_watcher_def getConfig_def getSecrets_def initialize_def playwright_call_def
        scrape_def processListings_def Date_now_def emit_def Let_def)

lemma mixed_world_run:
  "executeScraper ''w2''
     ((example_world [(example_watcher ''w1'')\<lparr>enabled := False\<rparr>, example_watcher ''w2''])
        \<lparr>log := l\<rparr>)
     = (Inr \<lparr>result_scraperId = ''w2'', success = True, error = None,
              newListings = [], priceDrops = [], totalFound = 0, executionTime = 1000\<rparr>,
        (example_world [(example_watcher ''w1'')\<lparr>enabled := False\<rparr>, example_watcher ''w2''])
          \<lparr>reads := 2,
           log := l @ [BrowserLaunched, PageOpened, PageWork ''w2'', PageCloseCalled,
                       BrowserCloseCalled]\<rparr>)"
proof -
  let ?w = "example_world [(example_watcher ''w1'')\<lparr>enabled := False\<rparr>, example_watcher ''w2'']"
  have t: "timeline ?w 0 = 1700000000000" "reads ?w = 0" "playwright ?w = []"
    by (simp_all add: example_world_def)
  show ?thesis
    by (simp add: executeScraper_def Date_now_def t mixed_world_try cleanup_def emit_def
          playwright_call_def)
qed

lemma mixed_world_batches:
  "run_batches 0 3 [example_watcher ''w2''] []
     (example_world [(example_watcher ''w1'')\<lparr>enabled := False\<rparr>, example_watcher ''w2''])
     = Some ([\<lparr>result_scraperId = ''w2'', success = True, error = None,
               newListings = [], priceDrops = [], totalFound = 0, executionTime = 1000\<rparr>],
             (example_world [(example_watcher ''w1'')\<lparr>enabled := False\<rparr>, example_watcher ''w2''])
               \<lparr>reads := 2,
                log := [ExecutingBatch 1 [''w2''], BrowserLaunched, PageOpened, PageWork ''w2'',
                        PageCloseCalled, BrowserCloseCalled]\<rparr>)"
proof -
  let ?w = "example_world [(example_watcher ''w1'')\<lparr>enabled := False\<rparr>, example_watcher ''w2'']"
  have id: "config_id (example_watcher ''w2'') = ''w2''" by (simp add: example_watcher_def)
  have l0: "log ?w = []" by (simp add: example_world_def)
  have e: "emit (ExecutingBatch (Suc 0) [''w2'']) ?w = ?w\<lparr>log := [ExecutingBatch 1 [''w2'']]\<rparr>"
    by (simp add: emit_def example_world_def)
  show ?thesis
    apply (subst run_batches.simps)
    apply (simp add: Let_def id e mixed_world_run l0)
    apply (subst run_batches.simps)
    apply simp
    done
qed

theorem executeScraper_disabled_witness:
  "executeScraper ''w1'' (example_world [(example_watcher ''w1'')\<lparr>enabled := False\<rparr>])
     = (Inr \<lparr>result_scraperId = ''w1'', success = True, error = None,
              newListings = [], priceDrops = [], totalFound = 0, executionTime = 1000\<rparr>,
        (example_world [(example_watcher ''w1'')\<lparr>enabled := False\<rparr>])\<lparr>reads := 2\<rparr>) \<and>
   fst (getEnabledScrapers (example_world [(example_watcher ''w1'')\<lparr>enabled := False\<rparr>]))
     = Inr [] \<and>
   handler 3 (example_world [(example_watcher ''w1'')\<lparr>enabled := False\<rparr>])
     = Some (Inr None, example_world [(example_watcher ''w1'')\<lparr>enabled := False\<rparr>]) \<and>
   fst (getEnabledScrapers
          (example_world [(example_watcher ''w1'')\<lparr>enabled := False\<rparr>, example_watcher ''w2'']))
     = Inr [example_watcher ''w2''] \<and>
   handler 3 (example_world [(example_watcher ''w1'')\<lparr>enabled := False\<rparr>, example_watcher ''w2''])
     = Some (Inr (Some (\<lparr>totalScrapers = 1, successCount = 1, failedCount = 0,
                          summary_totalFound = 0, totalNew = 0, totalDrops = 0,
                          avgExecutionTime = 1000\<rparr>,
                        [\<lparr>result_scraperId = ''w2'', success = True, error = None,
                          newListings = [], priceDrops = [], totalFound = 0,
                          executionTime = 1000\<rparr>])),
             (example_world [(example_watcher ''w1'')\<lparr>enabled := False\<rparr>, example_watcher ''w2''])
               \<lparr>reads := 2,
                log := [ExecutingBatch 1 [''w2''], BrowserLaunched, PageOpened, PageWork ''w2'',
                        PageCloseCalled, BrowserCloseCalled]\<rparr>)"
proof -
  let ?sc = "(example_watcher ''w1'')\<lparr>enabled := False\<rparr>"
  let ?w = "example_world [?sc]"
  let ?v = "example_world [?sc, example_watcher ''w2'']"
  have 1: "ssm ?w = Inr \<lparr>scrapers = [?sc]\<rparr>" by (simp add: example_world_def)
  have 2: "find (\<lambda>s. config_id s = ''w1'') (scrapers \<lparr>scrapers = [?sc]\<rparr>) = Some ?sc"
    by (simp add: example_watcher_def)
  have 3: "\<not> enabled ?sc" by simp
  have 4: "timeline ?w (Suc (reads ?w)) - timeline ?w (reads ?w) = 1000"
    "Suc (Suc (reads ?w)) = 2"
    by (simp_all add: example_world_def)
  have 5: "ssm ?v = Inr \<lparr>scrapers = [?sc, example_watcher ''w2'']\<rparr>"
    by (simp add: example_world_def)
  have 6: "find (\<lambda>s. config_id s = ''w1'') (scrapers \<lparr>scrapers = [?sc, example_watcher ''w2'']\<rparr>)
             = Some ?sc"
    by (simp add: example_watcher_def)
  have 7: "filter enabled (scrapers \<lparr>scrapers = [?sc, example_watcher ''w2'']\<rparr>)
             = [example_watcher ''w2'']"
    by (simp add: example_watcher_def)
  have 8: "filter enabled (scrapers \<lparr>scrapers = [?sc]\<rparr>) = []" by simp
  note A = executeScraper_disabled [OF 1 2 3, of 3, unfolded 4 8]
  note B = executeScraper_disabled [OF 5 6 3, of 3, unfolded 7 mixed_world_batches]
  from A have A1: "executeScraper ''w1'' ?w
     = (Inr \<lparr>result_scraperId = ''w1'', success = True, error = None,
              newListings = [], priceDrops = [], totalFound = 0, executionTime = 1000\<rparr>,
        ?w\<lparr>reads := 2\<rparr>)"
    and A2: "fst (getEnabledScrapers ?w) = Inr []"
    and A3: "handler 3 ?w = Some (Inr None, ?w)"
    by simp_all
  from B have B1: "fst (getEnabledScrapers ?v) = Inr [example_watcher ''w2'']"
    and B2: "handler 3 ?v
     = Some (Inr (Some (summarize [example_watcher ''w2'']
                          [\<lparr>result_scraperId = ''w2'', success = True, error = None,
                            newListings = [], priceDrops = [], totalFound = 0,
                            executionTime = 1000\<rparr>],
                        [\<lparr>result_scraperId = ''w2'', success = True, error = None,
                          newListings = [], priceDrops = [], totalFound = 0,
                          executionTime = 1000\<rparr>])),
             ?v\<lparr>reads := 2,
                log := [ExecutingBatch 1 [''w2''], BrowserLaunched, PageOpened, PageWork ''w2'',
                        PageCloseCalled, BrowserCloseCalled]\<rparr>)"
    by simp_all
  have S: "summarize [example_watcher ''w2'']
                          [\<lparr>result_scraperId = ''w2'', success = True, error = None,
                            newListings = [], priceDrops = [], totalFound = 0,
                            executionTime = 1000\<rparr>]
           = \<lparr>totalScrapers = 1, successCount = 1, failedCount = 0,
                          summary_totalFound = 0, totalNew = 0, totalDrops = 0,
                          avgExecutionTime = 1000\<rparr>"
    by (simp add: summarize_def)
  show ?thesis
    apply (intro conjI)
        apply (rule A1)
       apply (rule A2)
      apply (rule A3)
     apply (rule B1)
    apply (simp only: B2 S)
    done
qed

text \<open>
  C10. An enabled watcher whose marketplace is not Facebook gets a failed result whose
  error names the unsupported marketplace, with empty lists and zero found; the call
  returns it rather than throwing, and nothing but the error line and the two clock
  readings changes in the world.
\<close>

theorem executeScraper_unsupported_marketplace:
  assumes "ssm w = Inr cfg"
    and "find (\<lambda>s. config_id s = sid) (scrapers cfg) = Some sc"
    and "enabled sc"
    and "marketplace sc \<noteq> Facebook"
  shows "executeScraper sid w
           = (Inr \<lparr>result_scraperId = sid, success = False,
                    error = Some (''Unsupported marketplace: '' @ marketplace_name (marketplace sc)),
                    newListings = [], priceDrops = [], totalFound = 0,
                    executionTime = timeline w (Suc (reads w)) - timeline w (reads w)\<rparr>,
              w\<lparr>reads := Suc (Suc (reads w)),
                log := log w @ [ConsoleError ''Scraper failed'']\<rparr>)"
  using assms
  by (simp add: executeScraper_def executeScraper_try_def executeScraper_catch_def getConfig_def
        Date_now_def console_error_def emit_def error_message_def)


theorem executeScraper_unsupported_marketplace_witness:
  "executeScraper ''w3'' (example_world [(example_watcher ''w3'')\<lparr>marketplace := Ebay\<rparr>])
     = (Inr \<lparr>result_scraperId = ''w3'', success = False,
              error = Some ''Unsupported marketplace: ebay'',
              newListings = [], priceDrops = [], totalFound = 0, executionTime = 1000\<rparr>,
        (example_world [(example_watcher ''w3'')\<lparr>marketplace := Ebay\<rparr>])
          \<lparr>reads := 2, log := [ConsoleError ''Scraper failed'']\<rparr>)"
proof -
  let ?sc = "(example_watcher ''w3'')\<lparr>marketplace := Ebay\<rparr>"
  let ?w = "example_world [?sc]"
  have 1: "ssm ?w = Inr \<lparr>scrapers = [?sc]\<rparr>" by (simp add: example_world_def)
  have 2: "find (\<lambda>s. config_id s = ''w3'') (scrapers \<lparr>scrapers = [?sc]\<rparr>) = Some ?sc"
    by (simp add: example_watcher_def)
  have 3: "enabled ?sc" by (simp add: example_watcher_def)
  have 4: "marketplace ?sc \<noteq> Facebook" by simp
  have 5: "timeline ?w (Suc (reads ?w)) - timeline ?w (reads ?w) = 1000"
    "Suc (Suc (reads ?w)) = 2" "log ?w = []"
    "marketplace_name (marketplace ?sc) = ''ebay''"
    by (simp_all add: example_world_def marketplace_name_def)
  from executeScraper_unsupported_marketplace [OF 1 2 3 4, unfolded 5] show ?thesis by simp
qed

section \<open>Batch Scheduler\<close>

lemma executeScraper_try_id:
  "case fst (executeScraper_try sid t w) of Inr v \<Rightarrow> result_scraperId v = sid | Inl e \<Rightarrow> True"
  by (simp add: executeScraper_try_def Let_def case_prod_beta
           split: sum.split option.split)

lemma executeScraper_id:
  "executeScraper sid w = (Inr v, w') \<Longrightarrow> result_scraperId v = sid"
proof -
  assume a: "executeScraper sid w = (Inr v, w')"
  let ?t = "timeline w (reads w)"
  let ?w0 = "w\<lparr>reads := Suc (reads w)\<rparr>"
  obtain body sc w1 where tr: "executeScraper_try sid ?t ?w0 = (body, sc, w1)"
    by (cases "executeScraper_try sid ?t ?w0") auto
  have "result_scraperId (fst (case body of Inr r \<Rightarrow> (r, w1)
                                | Inl e \<Rightarrow> executeScraper_catch sid ?t e w1)) = sid"
    using executeScraper_try_id [of sid ?t ?w0] tr
    by (cases body) (simp_all add: executeScraper_catch_def Date_now_def)
  moreover from a tr have "v = fst (case body of Inr r \<Rightarrow> (r, w1)
                                | Inl e \<Rightarrow> executeScraper_catch sid ?t e w1)"
    by (auto simp: executeScraper_def Date_now_def split: prod.splits option.splits sum.splits)
  ultimately show ?thesis by simp
qed

lemma wave_index_less:
  assumes "1 \<le> (k::nat)"
  shows "j * k < n \<longleftrightarrow> j < (n + k - 1) div k"
proof -
  from assms have k: "0 < k" by simp
  have "j < (n + k - 1) div k \<longleftrightarrow> Suc j \<le> (n + k - 1) div k" by auto
  also have "\<dots> \<longleftrightarrow> Suc j * k \<le> n + k - 1"
    using k by (simp add: less_eq_div_iff_mult_less_eq)
  also have "\<dots> \<longleftrightarrow> j * k < n" using k by (cases n) auto
  finally show ?thesis by simp
qed


lemma sched_refl [simp]: "sched [] w w"
  by (simp add: sched_def)

lemma sched_trans: "sched s1 w w1 \<Longrightarrow> sched s2 w1 w2 \<Longrightarrow> sched (s1 @ s2) w w2"
  by (auto simp: sched_def)

lemma adds_sched: "adds r w w' \<Longrightarrow> sched [] w w'"
  by (auto simp: adds_def sched_def)

lemma adds_trace: "adds r w w' \<Longrightarrow> trace r w w'"
proof -
  assume "adds r w w'"
  then obtain evs where l: "log w' = log w @ evs"
    and r: "filter (\<lambda>e. is_resource e \<or> is_run e) evs = r"
    and s: "filter is_scheduler evs = []"
    by (auto simp: adds_def)
  from s have "\<forall>e\<in>set evs. \<not> is_scheduler e" by (simp add: filter_empty_conv)
  then have "filter is_trace evs = filter (\<lambda>e. is_resource e \<or> is_run e) evs"
    by (intro filter_cong) (simp_all add: is_trace_def)
  with l r show ?thesis by (auto simp: trace_def)
qed

lemma executeScraper_sched: "executeScraper sid w = (r, w') \<Longrightarrow> sched [] w w'"
  using executeScraper_adds adds_sched by blast

lemma run_wave_ok:
  "run_wave scs w = (rs, w') \<Longrightarrow> list_all2 settled_id scs rs \<and> sched [] w w'"
proof (induction scs arbitrary: w rs w')
  case Nil
  then show ?case by simp
next
  case (Cons sc scs)
  obtain r w1 where e: "executeScraper (config_id sc) w = (r, w1)"
    by (cases "executeScraper (config_id sc) w")
  obtain rs1 w2 where rw: "run_wave scs w1 = (rs1, w2)" by (cases "run_wave scs w1")
  from Cons.prems e rw have eq: "rs = r # rs1" "w' = w2" by simp_all
  from Cons.IH [OF rw] have ih: "list_all2 settled_id scs rs1" "sched [] w1 w2" by simp_all
  have "settled_id sc r"
    using executeScraper_id [of "config_id sc" w _ w1] e
    by (cases r) (simp_all add: settled_id_def)
  moreover have "sched [] w w2"
    using sched_trans [OF executeScraper_sched [OF e] ih(2)] by simp
  ultimately show ?case using ih(1) eq by simp
qed

lemma collect_wave_ok:
  "list_all2 settled_id scs rs \<Longrightarrow> collect_wave scs rs results w = (results', w') \<Longrightarrow>
     map result_scraperId results' = map result_scraperId results @ map config_id scs \<and>
     sched [] w w'"
proof (induction scs rs arbitrary: results w rule: list_all2_induct)
  case Nil
  then show ?case by simp
next
  case (Cons sc scs r rs)
  show ?case
  proof (cases r)
    case (Inr v)
    with Cons.prems have "collect_wave scs rs (results @ [v]) w = (results', w')" by simp
    from Cons.IH [OF this] Cons.hyps(1) Inr show ?thesis by (simp add: settled_id_def)
  next
    case (Inl e)
    let ?f = "\<lparr>result_scraperId = config_id sc, success = False,
               error = Some (reason_message e), newListings = [], priceDrops = [],
               totalFound = 0, executionTime = 0\<rparr>"
    from Cons.prems Inl
    have "collect_wave scs rs (results @ [?f]) (console_error ''Scraper failed'' w) = (results', w')"
      by simp
    from Cons.IH [OF this]
    have 1: "map result_scraperId results'
               = map result_scraperId (results @ [?f]) @ map config_id scs"
      and 2: "sched [] (console_error ''Scraper failed'' w) w'" by simp_all
    have "sched [] w (console_error ''Scraper failed'' w)"
      by (simp add: sched_def is_scheduler_def)
    from sched_trans [OF this 2] 1 show ?thesis by simp
  qed
qed

lemma run_batches_loop:
  assumes k: "1 \<le> k"
  shows "\<exists>results' w'.
           run_batches (j * k) k es results w = Some (results', w') \<and>
           sched (concat (map (wave_events k (map config_id es)) [j ..< wave_count (length es) k]))
             w w' \<and>
           map result_scraperId results'
             = map result_scraperId results @ map config_id (drop (j * k) es)"
proof (induction "wave_count (length es) k - j" arbitrary: j results w)
  case 0
  then have "\<not> j < wave_count (length es) k" by simp
  then have "\<not> j * k < length es"
    using wave_index_less [OF k, of j "length es"] by (simp add: wave_count_def)
  then show ?case
    using 0 by (subst run_batches.simps) simp
next
  case (Suc d)
  let ?m = "wave_count (length es) k"
  let ?ids = "map config_id es"
  from Suc.hyps(2) have jm: "j < ?m" by simp
  then have lt: "j * k < length es"
    using wave_index_less [OF k, of j "length es"] by (simp add: wave_count_def)
  let ?batch = "take k (drop (j * k) es)"
  let ?w1 = "emit (ExecutingBatch (j * k div k + 1) (map config_id ?batch)) w"
  obtain rs w2 where rw: "run_wave ?batch ?w1 = (rs, w2)" by (cases "run_wave ?batch ?w1")
  obtain res3 w3 where cw: "collect_wave ?batch rs results w2 = (res3, w3)"
    by (cases "collect_wave ?batch rs results w2")
  let ?w4 = "if j * k + k < length es then emit (Cooldown 2000) w3 else w3"
  from run_wave_ok [OF rw] have r1: "list_all2 settled_id ?batch rs" and s2: "sched [] ?w1 w2"
    by simp_all
  from collect_wave_ok [OF r1 cw]
  have ids3: "map result_scraperId res3 = map result_scraperId results @ map config_id ?batch"
    and s3: "sched [] w2 w3" by simp_all
  have d: "d = ?m - Suc j" using Suc.hyps(2) by simp
  from Suc.hyps(1) [OF d, of res3 ?w4] obtain results' w' where
    rb: "run_batches (Suc j * k) k es res3 ?w4 = Some (results', w')"
    and s5: "sched (concat (map (wave_events k ?ids) [Suc j ..< ?m])) ?w4 w'"
    and ids5: "map result_scraperId results'
                 = map result_scraperId res3 @ map config_id (drop (Suc j * k) es)"
    by blast
  have step: "run_batches (j * k) k es results w = run_batches (Suc j * k) k es res3 ?w4"
    using lt rw cw by (subst run_batches.simps) (simp add: Let_def add.commute)
  have cool: "j * k + k < length es \<longleftrightarrow> Suc j < ?m"
    using wave_index_less [OF k, of "Suc j" "length es"] by (simp add: wave_count_def add.commute)
  from k have kpos: "0 < k" by simp
  then have num: "j * k div k + 1 = Suc j" by simp
  have s1: "sched [ExecutingBatch (Suc j) (wave k j ?ids)] w ?w1"
    using kpos by (simp add: sched_def is_scheduler_def wave_def take_map drop_map)
  have s4: "sched (if Suc j < ?m then [Cooldown 2000] else []) w3 ?w4"
    by (simp add: sched_def is_scheduler_def cool)
  have "sched (wave_events k ?ids j) w ?w4"
    using sched_trans [OF sched_trans [OF sched_trans [OF s1 s2] s3] s4]
    by (simp add: wave_events_def)
  from sched_trans [OF this s5]
  have "sched (concat (map (wave_events k ?ids) [j ..< ?m])) w w'"
    using jm by (simp add: upt_conv_Cons)
  moreover have "map result_scraperId results'
                   = map result_scraperId results @ map config_id (drop (j * k) es)"
  proof -
    have "drop (j * k) es = ?batch @ drop (Suc j * k) es"
      by (simp add: add.commute) (metis append_take_drop_id drop_drop add.commute)
    then have "map config_id (drop (j * k) es)
                 = map config_id ?batch @ map config_id (drop (Suc j * k) es)"
      by (metis map_append)
    with ids3 ids5 show ?thesis by simp
  qed
  ultimately show ?case using step rb by simp
qed


lemma sched_emitted: "sched s w w' \<Longrightarrow> filter is_scheduler (emitted w w') = s"
  by (auto simp: sched_def emitted_def)

lemma concat_waves_from:
  assumes k: "1 \<le> k"
  shows "concat (map (\<lambda>j. wave k j xs) [j ..< wave_count (length xs) k]) = drop (j * k) xs"
proof (induction "wave_count (length xs) k - j" arbitrary: j)
  case 0
  then have "\<not> j < wave_count (length xs) k" by simp
  then have "\<not> j * k < length xs"
    using wave_index_less [OF k, of j "length xs"] by (simp add: wave_count_def)
  with 0 show ?case by simp
next
  case (Suc d)
  then have jm: "j < wave_count (length xs) k" and d: "d = wave_count (length xs) k - Suc j"
    by simp_all
  have "drop (j * k) xs = wave k j xs @ drop (Suc j * k) xs"
    by (simp add: wave_def add.commute) (metis append_take_drop_id drop_drop add.commute)
  with Suc.hyps(1) [OF d] jm show ?case by (simp add: upt_conv_Cons)
qed

lemma wave_sizes:
  assumes k: "1 \<le> k" and j: "j < wave_count (length xs) k"
  shows "wave k j xs \<noteq> [] \<and> length (wave k j xs) \<le> k \<and>
         (Suc j < wave_count (length xs) k \<longrightarrow> length (wave k j xs) = k)"
proof -
  from j have lt: "j * k < length xs"
    using wave_index_less [OF k, of j "length xs"] by (simp add: wave_count_def)
  have "Suc j < wave_count (length xs) k \<Longrightarrow> j * k + k < length xs"
    using wave_index_less [OF k, of "Suc j" "length xs"] by (simp add: wave_count_def add.commute)
  with lt k show ?thesis by (auto simp: wave_def)
qed

lemma cooldowns_from:
  "j \<le> wave_count (length ids) k \<Longrightarrow>
   length (filter is_cooldown
     (concat (map (wave_events k ids) [j ..< wave_count (length ids) k])))
     = wave_count (length ids) k - j - 1"
proof (induction "wave_count (length ids) k - j" arbitrary: j)
  case 0
  then show ?case by simp
next
  case (Suc d)
  then have jm: "j < wave_count (length ids) k" and d: "d = wave_count (length ids) k - Suc j"
    by simp_all
  from jm have "Suc j \<le> wave_count (length ids) k" by simp
  from Suc.hyps(1) [OF d this] jm show ?case
    by (auto simp: upt_conv_Cons wave_events_def is_cooldown_def)
qed

lemma plan_ends_with_wave:
  assumes "schedule_plan k ids \<noteq> []"
  shows "\<not> is_cooldown (last (schedule_plan k ids))"
proof -
  let ?m = "wave_count (length ids) k"
  from assms have m: "0 < ?m" by (auto simp: schedule_plan_def)
  then have "[0 ..< ?m] = [0 ..< ?m - 1] @ [?m - 1]"
    by (metis Suc_pred' upt_Suc_append zero_le)
  then have "schedule_plan k ids
      = concat (map (wave_events k ids) [0 ..< ?m - 1]) @ wave_events k ids (?m - 1)"
    by (simp add: schedule_plan_def)
  moreover have "wave_events k ids (?m - 1) = [ExecutingBatch ?m (wave k (?m - 1) ids)]"
    using m by (simp add: wave_events_def)
  ultimately show ?thesis by (simp add: is_cooldown_def)
qed

lemma wave_count_ceiling:
  assumes k: "1 \<le> k"
  shows "int (wave_count n k) = \<lceil>real n / real k\<rceil>"
proof -
  let ?m = "wave_count n k"
  from k have kpos: "0 < real k" by simp
  have "\<not> ?m * k < n"
    using wave_index_less [OF k, of ?m n] by (simp add: wave_count_def)
  then have "real n \<le> real ?m * real k"
    by (metis not_less of_nat_le_iff of_nat_mult)
  then have up: "real n / real k \<le> real_of_int (int ?m)"
    using kpos by (simp add: pos_divide_le_eq)
  have low: "real_of_int (int ?m) - 1 < real n / real k"
  proof (cases "?m = 0")
    case True
    have "0 \<le> real n / real k" by simp
    then have "- 1 < real n / real k" by linarith
    with True show ?thesis by simp
  next
    case False
    then have "(?m - 1) * k < n"
      using wave_index_less [OF k, of "?m - 1" n] by (simp add: wave_count_def)
    then have "real (?m - 1) * real k < real n"
      by (metis of_nat_less_iff of_nat_mult)
    then have "real (?m - 1) < real n / real k"
      using kpos by (simp add: pos_less_divide_eq)
    with False show ?thesis by (simp add: of_nat_diff)
  qed
  from ceiling_unique [OF low up] show ?thesis by simp
qed

lemma trace_refl [simp]: "trace [] w w"
  by (simp add: trace_def)

lemma trace_trans: "trace t1 w w1 \<Longrightarrow> trace t2 w1 w2 \<Longrightarrow> trace (t1 @ t2) w w2"
  by (auto simp: trace_def)

lemma executeScraper_run:
  assumes e: "executeScraper sid w = (r, w')"
  shows "\<exists>run. run_shape sid run \<and> trace run w w' \<and> steady w w' \<and>
               (ready w sid \<longrightarrow> run = run_trace sid)"
proof (cases "ready w sid")
  case True
  from executeScraper_ready [OF True e] have a: "adds (run_trace sid) w w'" .
  show ?thesis
    apply (rule exI [of _ "run_trace sid"])
    using adds_trace [OF a] adds_steady [OF a] apply (simp add: run_shape_def)
    done
next
  case False
  from executeScraper_adds [OF e]
  have "\<exists>run. run_shape sid run \<and> adds run w w'"
    by (auto simp: run_shape_def)
  then obtain run where s: "run_shape sid run" and a: "adds run w w'" by blast
  show ?thesis
    apply (rule exI [of _ run])
    using s adds_trace [OF a] adds_steady [OF a] False apply simp
    done
qed

lemma run_wave_trace:
  "run_wave scs w = (rs, w') \<Longrightarrow>
     \<exists>runs. list_all2 run_shape (map config_id scs) runs \<and> trace (concat runs) w w' \<and>
            steady w w' \<and>
            (list_all (\<lambda>sc. ready w (config_id sc)) scs
               \<longrightarrow> runs = map run_trace (map config_id scs))"
proof (induction scs arbitrary: w rs w')
  case Nil
  then have "w' = w" by simp
  then show ?case by simp
next
  case (Cons sc scs)
  obtain r w1 where e: "executeScraper (config_id sc) w = (r, w1)"
    by (cases "executeScraper (config_id sc) w")
  obtain rs1 w2 where rw: "run_wave scs w1 = (rs1, w2)" by (cases "run_wave scs w1")
  from Cons.prems e rw have eq: "w' = w2" by simp
  from executeScraper_run [OF e] obtain run where
    r1: "run_shape (config_id sc) run" and r2: "trace run w w1" and r3: "steady w w1"
    and r4: "ready w (config_id sc) \<longrightarrow> run = run_trace (config_id sc)"
    by blast
  from Cons.IH [OF rw] obtain runs where
    i1: "list_all2 run_shape (map config_id scs) runs" and i2: "trace (concat runs) w1 w2"
    and i3: "steady w1 w2"
    and i4: "list_all (\<lambda>sc. ready w1 (config_id sc)) scs
               \<longrightarrow> runs = map run_trace (map config_id scs)"
    by blast
  have a: "list_all2 run_shape (map config_id (sc # scs)) (run # runs)" using r1 i1 by simp
  have b: "trace (concat (run # runs)) w w'" using trace_trans [OF r2 i2] eq by simp
  have c: "steady w w'" using steady_trans [OF r3 i3] eq by simp
  have d: "list_all (\<lambda>sc. ready w (config_id sc)) (sc # scs)
             \<longrightarrow> run # runs = map run_trace (map config_id (sc # scs))"
  proof
    assume all: "list_all (\<lambda>sc. ready w (config_id sc)) (sc # scs)"
    then have "list_all (\<lambda>sc. ready w1 (config_id sc)) scs"
      using steady_ready [OF r3] by (auto simp: list_all_iff)
    with i4 r4 all show "run # runs = map run_trace (map config_id (sc # scs))" by simp
  qed
  show ?case
    apply (rule exI [of _ "run # runs"])
    apply (intro conjI)
       apply (rule a)
      apply (rule b)
     apply (rule c)
    apply (rule d)
    done
qed

lemma quiet_console: "trace [] w (console_error m w)" "steady w (console_error m w)"
  by (simp_all add: trace_def steady_def is_trace_def is_scheduler_def is_resource_def is_run_def)

lemma collect_wave_trace:
  "list_all2 settled_id scs rs \<Longrightarrow> collect_wave scs rs results w = (results', w') \<Longrightarrow>
     trace [] w w' \<and> steady w w'"
proof (induction scs rs arbitrary: results w rule: list_all2_induct)
  case Nil
  then show ?case by simp
next
  case (Cons sc scs r rs)
  show ?case
  proof (cases r)
    case (Inr v)
    with Cons.prems have "collect_wave scs rs (results @ [v]) w = (results', w')" by simp
    from Cons.IH [OF this] show ?thesis .
  next
    case (Inl e)
    let ?f = "\<lparr>result_scraperId = config_id sc, success = False,
               error = Some (reason_message e), newListings = [], priceDrops = [],
               totalFound = 0, executionTime = 0\<rparr>"
    from Cons.prems Inl
    have "collect_wave scs rs (results @ [?f]) (console_error ''Scraper failed'' w) = (results', w')"
      by simp
    from Cons.IH [OF this]
    have 1: "trace [] (console_error ''Scraper failed'' w) w'"
      and 2: "steady (console_error ''Scraper failed'' w) w'" by simp_all
    from trace_trans [OF quiet_console(1) 1] steady_trans [OF quiet_console(2) 2]
    show ?thesis by simp
  qed
qed

lemma map2_same: "map2 f xs (map g xs) = map (\<lambda>x. f x (g x)) xs"
  by (induction xs) simp_all

lemma run_batches_trace:
  assumes k: "1 \<le> k"
  shows "\<exists>results' w' runss.
           run_batches (j * k) k es results w = Some (results', w') \<and>
           list_all2 (list_all2 run_shape)
             (map (\<lambda>i. wave k i (map config_id es)) [j ..< wave_count (length es) k]) runss \<and>
           trace (concat (map2 (wave_trace k (map config_id es))
                            [j ..< wave_count (length es) k] runss)) w w' \<and>
           steady w w' \<and>
           (list_all (\<lambda>sc. ready w (config_id sc)) es \<longrightarrow>
              runss = map (\<lambda>i. map run_trace (wave k i (map config_id es)))
                        [j ..< wave_count (length es) k])"
proof (induction "wave_count (length es) k - j" arbitrary: j results w)
  case 0
  then have "\<not> j < wave_count (length es) k" by simp
  then have "\<not> j * k < length es"
    using wave_index_less [OF k, of j "length es"] by (simp add: wave_count_def)
  then have rb: "run_batches (j * k) k es results w = Some (results, w)"
    by (subst run_batches.simps) simp
  show ?case
    apply (rule exI [of _ results])
    apply (rule exI [of _ w])
    apply (rule exI [of _ "[]"])
    using 0 rb apply simp
    done
next
  case (Suc d)
  let ?m = "wave_count (length es) k"
  let ?ids = "map config_id es"
  from Suc.hyps(2) have jm: "j < ?m" by simp
  then have lt: "j * k < length es"
    using wave_index_less [OF k, of j "length es"] by (simp add: wave_count_def)
  let ?batch = "take k (drop (j * k) es)"
  let ?w1 = "emit (ExecutingBatch (j * k div k + 1) (map config_id ?batch)) w"
  obtain rs w2 where rw: "run_wave ?batch ?w1 = (rs, w2)" by (cases "run_wave ?batch ?w1")
  obtain res3 w3 where cw: "collect_wave ?batch rs results w2 = (res3, w3)"
    by (cases "collect_wave ?batch rs results w2")
  let ?w4 = "if j * k + k < length es then emit (Cooldown 2000) w3 else w3"
  from run_wave_ok [OF rw] have r1: "list_all2 settled_id ?batch rs" by simp
  have bid: "map config_id ?batch = wave k j ?ids"
    by (simp add: wave_def take_map drop_map)
  from run_wave_trace [OF rw] obtain runs where
    u1: "list_all2 run_shape (wave k j ?ids) runs" and u2: "trace (concat runs) ?w1 w2"
    and u3: "steady ?w1 w2"
    and u4: "list_all (\<lambda>sc. ready ?w1 (config_id sc)) ?batch
               \<longrightarrow> runs = map run_trace (wave k j ?ids)"
    unfolding bid by blast
  from collect_wave_trace [OF r1 cw] have t3: "trace [] w2 w3" and st3: "steady w2 w3"
    by simp_all
  from k have kpos: "0 < k" by simp
  then have num: "j * k div k + 1 = Suc j" by simp
  have cool: "j * k + k < length es \<longleftrightarrow> Suc j < ?m"
    using wave_index_less [OF k, of "Suc j" "length es"] by (simp add: wave_count_def add.commute)
  have t1: "trace [ExecutingBatch (Suc j) (wave k j ?ids)] w ?w1"
    using kpos by (simp add: trace_def is_trace_def is_scheduler_def bid)
  have st1: "steady w ?w1" by (simp add: steady_def)
  have t4: "trace (if Suc j < ?m then [Cooldown 2000] else []) w3 ?w4"
    by (simp add: trace_def is_trace_def is_scheduler_def cool)
  have st4: "steady w3 ?w4" by (simp add: steady_def)
  have tw: "trace (wave_trace k ?ids j runs) w ?w4"
    using trace_trans [OF trace_trans [OF trace_trans [OF t1 u2] t3] t4]
    by (simp add: wave_trace_def)
  have stw: "steady w ?w4"
    by (rule steady_trans [OF steady_trans [OF steady_trans [OF st1 u3] st3] st4])
  have d: "d = ?m - Suc j" using Suc.hyps(2) by simp
  from Suc.hyps(1) [OF d, of res3 ?w4] obtain results' w' runss where
    rb: "run_batches (Suc j * k) k es res3 ?w4 = Some (results', w')"
    and v1: "list_all2 (list_all2 run_shape) (map (\<lambda>i. wave k i ?ids) [Suc j ..< ?m]) runss"
    and v2: "trace (concat (map2 (wave_trace k ?ids) [Suc j ..< ?m] runss)) ?w4 w'"
    and v3: "steady ?w4 w'"
    and v4: "list_all (\<lambda>sc. ready ?w4 (config_id sc)) es \<longrightarrow>
              runss = map (\<lambda>i. map run_trace (wave k i ?ids)) [Suc j ..< ?m]"
    by blast
  have step: "run_batches (j * k) k es results w = run_batches (Suc j * k) k es res3 ?w4"
    using lt rw cw by (subst run_batches.simps) (simp add: Let_def add.commute)
  have up: "[j ..< ?m] = j # [Suc j ..< ?m]" using jm by (simp add: upt_conv_Cons)
  have a: "run_batches (j * k) k es results w = Some (results', w')" using step rb by simp
  have b: "list_all2 (list_all2 run_shape) (map (\<lambda>i. wave k i ?ids) [j ..< ?m]) (runs # runss)"
    unfolding up using u1 v1 by simp
  have c: "trace (concat (map2 (wave_trace k ?ids) [j ..< ?m] (runs # runss))) w w'"
    unfolding up using trace_trans [OF tw v2] by simp
  have e: "steady w w'" by (rule steady_trans [OF stw v3])
  have f: "list_all (\<lambda>sc. ready w (config_id sc)) es \<longrightarrow>
              runs # runss = map (\<lambda>i. map run_trace (wave k i ?ids)) [j ..< ?m]"
  proof
    assume all: "list_all (\<lambda>sc. ready w (config_id sc)) es"
    have "set ?batch \<subseteq> set es"
      by (meson set_take_subset set_drop_subset subset_trans)
    with all have "list_all (\<lambda>sc. ready ?w1 (config_id sc)) ?batch"
      by (auto simp: list_all_iff)
    with u4 have 1: "runs = map run_trace (wave k j ?ids)" by blast
    from all have "list_all (\<lambda>sc. ready ?w4 (config_id sc)) es"
      using steady_ready [OF stw] by (auto simp: list_all_iff)
    with v4 have 2: "runss = map (\<lambda>i. map run_trace (wave k i ?ids)) [Suc j ..< ?m]" by blast
    show "runs # runss = map (\<lambda>i. map run_trace (wave k i ?ids)) [j ..< ?m]"
      unfolding up using 1 2 by simp
  qed
  show ?case
    apply (rule exI [of _ results'])
    apply (rule exI [of _ w'])
    apply (rule exI [of _ "runs # runss"])
    apply (intro conjI)
        apply (rule a)
       apply (rule b)
      apply (rule c)
     apply (rule e)
    apply (rule f)
    done
qed

lemma trace_emitted: "trace t w w' \<Longrightarrow> filter is_trace (emitted w w') = t"
  by (auto simp: trace_def emitted_def)

text \<open>
  C4. With a concurrency limit \<open>k \<ge> 1\<close> the loop over the waves returns, with one
  result per enabled watcher in the original order, and what the scheduler does is the
  plan: wave 1, cooldown, wave 2, cooldown, ..., last wave. Between the batch line of a
  wave and the next scheduler line lie the runs of that wave's watchers and nothing of
  any other watcher: one run per watcher, in the order of the wave, each of them nothing,
  a browser launched and closed, or the full run with the page work of that watcher, so
  that every run of a wave has ended (its browser closed) before the cooldown and the
  next batch line. When every watcher is ready to run, each run is the full one. The
  number of waves is the ceiling of \<open>n / k\<close>; the waves, one after the other, are
  the original list; every wave is non-empty and has at most \<open>k\<close> watchers, and every
  wave but the last has exactly \<open>k\<close>; the number of cooldowns is the number of waves
  less one, and the plan never ends with a cooldown.
\<close>

theorem scheduler_waves:
  assumes "1 \<le> k"
  shows "(\<exists>results w'.
            run_batches 0 k es [] w = Some (results, w') \<and>
            filter is_scheduler (emitted w w') = schedule_plan k (map config_id es) \<and>
            map result_scraperId results = map config_id es \<and>
            (\<exists>runss.
               list_all2 (list_all2 run_shape)
                 (map (\<lambda>j. wave k j (map config_id es)) [0 ..< wave_count (length es) k]) runss \<and>
               filter is_trace (emitted w w')
                 = concat (map2 (wave_trace k (map config_id es))
                             [0 ..< wave_count (length es) k] runss)) \<and>
            (list_all (\<lambda>sc. ready w (config_id sc)) es \<longrightarrow>
               filter is_trace (emitted w w') = trace_plan k (map config_id es))) \<and>
         int (wave_count (length es) k) = \<lceil>real (length es) / real k\<rceil> \<and>
         concat (map (\<lambda>j. wave k j es) [0 ..< wave_count (length es) k]) = es \<and>
         (\<forall>j. j < wave_count (length es) k \<longrightarrow>
            wave k j es \<noteq> [] \<and> length (wave k j es) \<le> k \<and>
            (Suc j < wave_count (length es) k \<longrightarrow> length (wave k j es) = k)) \<and>
         length (filter is_cooldown (schedule_plan k (map config_id es)))
           = wave_count (length es) k - 1 \<and>
         (schedule_plan k (map config_id es) \<noteq> [] \<longrightarrow>
            \<not> is_cooldown (last (schedule_plan k (map config_id es))))"
proof (intro conjI allI impI)
  let ?m = "wave_count (length es) k"
  let ?ids = "map config_id es"
  have "\<exists>results w'.
           run_batches 0 k es [] w = Some (results, w') \<and>
           sched (concat (map (wave_events k ?ids) [0 ..< ?m])) w w' \<and>
           map result_scraperId results = ?ids"
    using run_batches_loop [OF assms, of 0 es "[]" w] by simp
  then obtain results where "\<exists>w'.
           run_batches 0 k es [] w = Some (results, w') \<and>
           sched (concat (map (wave_events k ?ids) [0 ..< ?m])) w w' \<and>
           map result_scraperId results = ?ids" ..
  then obtain w' where A:
          "run_batches 0 k es [] w = Some (results, w') \<and>
           sched (concat (map (wave_events k ?ids) [0 ..< ?m])) w w' \<and>
           map result_scraperId results = ?ids" ..
  from A have rb: "run_batches 0 k es [] w = Some (results, w')" by simp
  from A have ids: "map result_scraperId results = ?ids" by simp
  from A have "sched (concat (map (wave_events k ?ids) [0 ..< ?m])) w w'" by simp
  from sched_emitted [OF this]
  have pl: "filter is_scheduler (emitted w w') = schedule_plan k ?ids"
    by (simp add: schedule_plan_def)
  have "\<exists>results2 w2 runss.
           run_batches 0 k es [] w = Some (results2, w2) \<and>
           list_all2 (list_all2 run_shape) (map (\<lambda>i. wave k i ?ids) [0 ..< ?m]) runss \<and>
           trace (concat (map2 (wave_trace k ?ids) [0 ..< ?m] runss)) w w2 \<and>
           steady w w2 \<and>
           (list_all (\<lambda>sc. ready w (config_id sc)) es \<longrightarrow>
              runss = map (\<lambda>i. map run_trace (wave k i ?ids)) [0 ..< ?m])"
    using run_batches_trace [OF assms, of 0 es "[]" w] by simp
  then obtain results2 w2 runss where
    rb2: "run_batches 0 k es [] w = Some (results2, w2)"
    and sh: "list_all2 (list_all2 run_shape) (map (\<lambda>i. wave k i ?ids) [0 ..< ?m]) runss"
    and tr: "trace (concat (map2 (wave_trace k ?ids) [0 ..< ?m] runss)) w w2"
    and rdy: "list_all (\<lambda>sc. ready w (config_id sc)) es \<longrightarrow>
              runss = map (\<lambda>i. map run_trace (wave k i ?ids)) [0 ..< ?m]"
    by blast
  from rb rb2 have "w2 = w'" by simp
  with tr have tr': "trace (concat (map2 (wave_trace k ?ids) [0 ..< ?m] runss)) w w'" by simp
  from trace_emitted [OF tr']
  have te: "filter is_trace (emitted w w')
              = concat (map2 (wave_trace k ?ids) [0 ..< ?m] runss)" .
  have ex: "\<exists>runss.
               list_all2 (list_all2 run_shape) (map (\<lambda>j. wave k j ?ids) [0 ..< ?m]) runss \<and>
               filter is_trace (emitted w w')
                 = concat (map2 (wave_trace k ?ids) [0 ..< ?m] runss)"
    apply (rule exI [of _ runss])
    apply (simp only: sh te)
    done
  have full: "list_all (\<lambda>sc. ready w (config_id sc)) es \<longrightarrow>
               filter is_trace (emitted w w') = trace_plan k ?ids"
  proof
    assume "list_all (\<lambda>sc. ready w (config_id sc)) es"
    with rdy have "runss = map (\<lambda>i. map run_trace (wave k i ?ids)) [0 ..< ?m]" by blast
    with te show "filter is_trace (emitted w w') = trace_plan k ?ids"
      by (simp only: map2_same trace_plan_def length_map)
  qed
  show "\<exists>results w'.
            run_batches 0 k es [] w = Some (results, w') \<and>
            filter is_scheduler (emitted w w') = schedule_plan k (map config_id es) \<and>
            map result_scraperId results = map config_id es \<and>
            (\<exists>runss.
               list_all2 (list_all2 run_shape)
                 (map (\<lambda>j. wave k j (map config_id es)) [0 ..< wave_count (length es) k]) runss \<and>
               filter is_trace (emitted w w')
                 = concat (map2 (wave_trace k (map config_id es))
                             [0 ..< wave_count (length es) k] runss)) \<and>
            (list_all (\<lambda>sc. ready w (config_id sc)) es \<longrightarrow>
               filter is_trace (emitted w w') = trace_plan k (map config_id es))"
    apply (rule exI [of _ results])
    apply (rule exI [of _ w'])
    apply (intro conjI)
        apply (rule rb)
       apply (rule pl)
      apply (rule ids)
     apply (rule ex)
    apply (rule full)
    done
next
  show "int (wave_count (length es) k) = \<lceil>real (length es) / real k\<rceil>"
    by (rule wave_count_ceiling [OF assms])
next
  show "concat (map (\<lambda>j. wave k j es) [0 ..< wave_count (length es) k]) = es"
    using concat_waves_from [OF assms, of es 0] by simp
next
  fix j
  assume j: "j < wave_count (length es) k"
  from wave_sizes [OF assms j] show "wave k j es \<noteq> []" and "length (wave k j es) \<le> k"
    by simp_all
  assume "Suc j < wave_count (length es) k"
  with wave_sizes [OF assms j] show "length (wave k j es) = k" by simp
next
  show "length (filter is_cooldown (schedule_plan k (map config_id es)))
           = wave_count (length es) k - 1"
    using cooldowns_from [of 0 "map config_id es" k] by (simp add: schedule_plan_def)
next
  assume "schedule_plan k (map config_id es) \<noteq> []"
  then show "\<not> is_cooldown (last (schedule_plan k (map config_id es)))"
    by (rule plan_ends_with_wave)
qed

lemma seven_plan:
  "schedule_plan 3 [''a'', ''b'', ''c'', ''d'', ''e'', ''f'', ''g'']
     = [ExecutingBatch 1 [''a'', ''b'', ''c''], Cooldown 2000,
        ExecutingBatch 2 [''d'', ''e'', ''f''], Cooldown 2000,
        ExecutingBatch 3 [''g'']]"
  by code_simp

lemma seven_sizes:
  "map length (map (\<lambda>j. wave 3 j seven_watchers) [0 ..< 3]) = [3, 3, 1]"
  by code_simp

lemma seven_trace:
  "trace_plan 3 [''a'', ''b'', ''c'', ''d'', ''e'', ''f'', ''g'']
     = [ExecutingBatch 1 [''a'', ''b'', ''c''],
        BrowserLaunched, PageOpened, PageWork ''a'', PageCloseCalled, BrowserCloseCalled,
        BrowserLaunched, PageOpened, PageWork ''b'', PageCloseCalled, BrowserCloseCalled,
        BrowserLaunched, PageOpened, PageWork ''c'', PageCloseCalled, BrowserCloseCalled,
        Cooldown 2000,
        ExecutingBatch 2 [''d'', ''e'', ''f''],
        BrowserLaunched, PageOpened, PageWork ''d'', PageCloseCalled, BrowserCloseCalled,
        BrowserLaunched, PageOpened, PageWork ''e'', PageCloseCalled, BrowserCloseCalled,
        BrowserLaunched, PageOpened, PageWork ''f'', PageCloseCalled, BrowserCloseCalled,
        Cooldown 2000,
        ExecutingBatch 3 [''g''],
        BrowserLaunched, PageOpened, PageWork ''g'', PageCloseCalled, BrowserCloseCalled]"
  by code_simp

lemma seven_ready:
  "list_all (\<lambda>sc. ready (example_world seven_watchers) (config_id sc)) seven_watchers"
  by (simp add: seven_watchers_def example_world_def ready_def example_watcher_def)

theorem scheduler_waves_witness:
  "(\<exists>results w'.
      run_batches 0 3 seven_watchers [] (example_world seven_watchers) = Some (results, w') \<and>
      filter is_scheduler (emitted (example_world seven_watchers) w')
        = [ExecutingBatch 1 [''a'', ''b'', ''c''], Cooldown 2000,
           ExecutingBatch 2 [''d'', ''e'', ''f''], Cooldown 2000,
           ExecutingBatch 3 [''g'']] \<and>
      map result_scraperId results = [''a'', ''b'', ''c'', ''d'', ''e'', ''f'', ''g''] \<and>
      filter is_trace (emitted (example_world seven_watchers) w')
        = [ExecutingBatch 1 [''a'', ''b'', ''c''],
           BrowserLaunched, PageOpened, PageWork ''a'', PageCloseCalled, BrowserCloseCalled,
           BrowserLaunched, PageOpened, PageWork ''b'', PageCloseCalled, BrowserCloseCalled,
           BrowserLaunched, PageOpened, PageWork ''c'', PageCloseCalled, BrowserCloseCalled,
           Cooldown 2000,
           ExecutingBatch 2 [''d'', ''e'', ''f''],
           BrowserLaunched, PageOpened, PageWork ''d'', PageCloseCalled, BrowserCloseCalled,
           BrowserLaunched, PageOpened, PageWork ''e'', PageCloseCalled, BrowserCloseCalled,
           BrowserLaunched, PageOpened, PageWork ''f'', PageCloseCalled, BrowserCloseCalled,
           Cooldown 2000,
           ExecutingBatch 3 [''g''],
           BrowserLaunched, PageOpened, PageWork ''g'', PageCloseCalled, BrowserCloseCalled]) \<and>
   wave_count (length seven_watchers) 3 = 3 \<and>
   map length (map (\<lambda>j. wave 3 j seven_watchers) [0 ..< wave_count (length seven_watchers) 3])
     = [3, 3, 1] \<and>
   length (filter is_cooldown (schedule_plan 3 (map config_id seven_watchers))) = 2"
proof -
  have ids: "map config_id seven_watchers = [''a'', ''b'', ''c'', ''d'', ''e'', ''f'', ''g'']"
    by (simp add: seven_watchers_def example_watcher_def)
  have n: "length seven_watchers = 7" by (simp add: seven_watchers_def)
  have c: "wave_count 7 3 = 3" by (simp add: wave_count_def)
  note sizes = seven_sizes
  have one: "(1::nat) \<le> 3" by simp
  note T = scheduler_waves [OF one, of seven_watchers "example_world seven_watchers",
         unfolded ids n c seven_plan seven_trace]
  have first: "\<exists>results w'.
      run_batches 0 3 seven_watchers [] (example_world seven_watchers) = Some (results, w') \<and>
      filter is_scheduler (emitted (example_world seven_watchers) w')
        = [ExecutingBatch 1 [''a'', ''b'', ''c''], Cooldown 2000,
           ExecutingBatch 2 [''d'', ''e'', ''f''], Cooldown 2000,
           ExecutingBatch 3 [''g'']] \<and>
      map result_scraperId results = [''a'', ''b'', ''c'', ''d'', ''e'', ''f'', ''g''] \<and>
      filter is_trace (emitted (example_world seven_watchers) w')
        = [ExecutingBatch 1 [''a'', ''b'', ''c''],
           BrowserLaunched, PageOpened, PageWork ''a'', PageCloseCalled, BrowserCloseCalled,
           BrowserLaunched, PageOpened, PageWork ''b'', PageCloseCalled, BrowserCloseCalled,
           BrowserLaunched, PageOpened, PageWork ''c'', PageCloseCalled, BrowserCloseCalled,
           Cooldown 2000,
           ExecutingBatch 2 [''d'', ''e'', ''f''],
           BrowserLaunched, PageOpened, PageWork ''d'', PageCloseCalled, BrowserCloseCalled,
           BrowserLaunched, PageOpened, PageWork ''e'', PageCloseCalled, BrowserCloseCalled,
           BrowserLaunched, PageOpened, PageWork ''f'', PageCloseCalled, BrowserCloseCalled,
           Cooldown 2000,
           ExecutingBatch 3 [''g''],
           BrowserLaunched, PageOpened, PageWork ''g'', PageCloseCalled, BrowserCloseCalled]"
    using T [THEN conjunct1] seven_ready
    apply (elim exE conjE)
    apply (rule exI, rule exI)
    apply (intro conjI)
       apply assumption
      apply assumption
     apply assumption
    apply (erule impE)
     apply assumption
    apply assumption
    done
  from T sizes have rest: "wave_count (length seven_watchers) 3 = 3 \<and>
   map length (map (\<lambda>j. wave 3 j seven_watchers) [0 ..< wave_count (length seven_watchers) 3])
     = [3, 3, 1] \<and>
   length (filter is_cooldown (schedule_plan 3 (map config_id seven_watchers))) = 2"
    by (simp add: n c ids seven_plan is_cooldown_def)
  from first rest show ?thesis by (rule conjI)
qed

section \<open>Failures of the Watch Runner\<close>

text \<open>
  Three facts around C3. A rejected Watch Runner call is a rejected \<open>cleanup\<close> of a
  launched browser: nothing else gets past the \<open>catch\<close>. A returned result that is
  not a success carries an error message, empty lists and zero found. And (with
  \<open>run_batches_loop\<close> above) the scheduler records one result per enabled watcher
  whatever the runs do.
\<close>

lemma executeScraper_rejection_is_cleanup:
  "executeScraper sid w = (Inl e, w') \<Longrightarrow> \<exists>s w2 s'. browser s \<and> cleanup s w2 = (Inl e, s', w')"
proof -
  assume a: "executeScraper sid w = (Inl e, w')"
  let ?t = "timeline w (reads w)"
  let ?w0 = "w\<lparr>reads := Suc (reads w)\<rparr>"
  obtain body sc w1 where tr: "executeScraper_try sid ?t ?w0 = (body, sc, w1)"
    by (cases "executeScraper_try sid ?t ?w0") auto
  obtain ret w2 where ct:
    "(case body of Inr r \<Rightarrow> (r, w1) | Inl e \<Rightarrow> executeScraper_catch sid ?t e w1) = (ret, w2)"
    by (cases "case body of Inr r \<Rightarrow> (r, w1) | Inl e \<Rightarrow> executeScraper_catch sid ?t e w1")
  show ?thesis
  proof (cases sc)
    case None
    with a tr ct show ?thesis by (simp add: executeScraper_def Date_now_def)
  next
    case (Some s)
    obtain x s' w3 where cl: "cleanup s w2 = (x, s', w3)" by (cases "cleanup s w2") auto
    from a tr ct Some cl have "x = Inl e" "w3 = w'"
      by (cases x; simp add: executeScraper_def Date_now_def)+
    moreover from this cl have "browser s" by (auto simp: cleanup_def split: if_splits)
    ultimately show ?thesis using cl by blast
  qed
qed

lemma executeScraper_try_success:
  "case fst (executeScraper_try sid t w) of Inr v \<Rightarrow> success v | Inl e \<Rightarrow> True"
  by (simp add: executeScraper_try_def Let_def case_prod_beta
           split: sum.split option.split)

lemma executeScraper_failure_captured:
  assumes a: "executeScraper sid w = (Inr v, w')" and f: "\<not> success v"
  shows "error v \<noteq> None \<and> newListings v = [] \<and> priceDrops v = [] \<and> totalFound v = 0"
proof -
  let ?t = "timeline w (reads w)"
  let ?w0 = "w\<lparr>reads := Suc (reads w)\<rparr>"
  obtain body sc w1 where tr: "executeScraper_try sid ?t ?w0 = (body, sc, w1)"
    by (cases "executeScraper_try sid ?t ?w0") auto
  from a tr have v: "v = fst (case body of Inr r \<Rightarrow> (r, w1)
                                | Inl e \<Rightarrow> executeScraper_catch sid ?t e w1)"
    by (auto simp: executeScraper_def Date_now_def split: prod.splits option.splits sum.splits)
  show ?thesis
  proof (cases body)
    case (Inr r)
    with executeScraper_try_success [of sid ?t ?w0] tr v f show ?thesis by simp
  next
    case (Inl e)
    with v show ?thesis by (simp add: executeScraper_catch_def Date_now_def)
  qed
qed



lemma close_fails_try:
  "executeScraper_try ''w1'' t (close_fails_world\<lparr>log := l, reads := Suc 0\<rparr>)
     = (Inr \<lparr>result_scraperId = ''w1'', success = True, error = None,
              newListings = [], priceDrops = [], totalFound = 0,
              executionTime = 1700000001000 - t\<rparr>,
        Some \<lparr>browser = True\<rparr>,
        close_fails_world\<lparr>reads := 2,
           playwright := [Some (Error ''Protocol error: Browser.close'')],
           log := l @ [BrowserLaunched, PageOpened, PageWork ''w1'', PageCloseCalled]\<rparr>)"
  by (simp add: executeScraper_try_def close_fails_world_def example_world_def
        example_watcher_def getConfig_def getSecrets_def initialize_def playwright_call_def
        scrape_def processListings_def Date_now_def emit_def Let_def)

lemma close_fails_run:
  "executeScraper ''w1'' (close_fails_world\<lparr>log := l\<rparr>)
     = (Inl (Error ''Protocol error: Browser.close''),
        close_fails_world\<lparr>reads := 2, playwright := [],
           log := l @ [BrowserLaunched, PageOpened, PageWork ''w1'', PageCloseCalled,
                       BrowserCloseCalled]\<rparr>)"
proof -
  have t: "timeline close_fails_world (reads close_fails_world) = 1700000000000"
    "reads close_fails_world = 0"
    by (simp_all add: close_fails_world_def example_world_def)
  show ?thesis
    by (simp add: executeScraper_def Date_now_def t close_fails_try cleanup_def emit_def
          playwright_call_def)
qed

lemma close_fails_plain: "close_fails_world\<lparr>log := []\<rparr> = close_fails_world"
  by (simp add: close_fails_world_def example_world_def)

lemma close_fails_enabled:
  "getEnabledScrapers close_fails_world = (Inr [example_watcher ''w1''], close_fails_world)"
  by (simp add: getEnabledScrapers_def getConfig_def close_fails_world_def example_world_def
        example_watcher_def)

lemma close_fails_batches:
  "run_batches 0 5 [example_watcher ''w1''] [] close_fails_world
     = Some ([\<lparr>result_scraperId = ''w1'', success = False,
               error = Some ''Protocol error: Browser.close'',
               newListings = [], priceDrops = [], totalFound = 0, executionTime = 0\<rparr>],
             close_fails_world\<lparr>reads := 2, playwright := [],
               log := [ExecutingBatch 1 [''w1''], BrowserLaunched, PageOpened, PageWork ''w1'',
                       PageCloseCalled, BrowserCloseCalled, ConsoleError ''Scraper failed'']\<rparr>)"
proof -
  have id: "config_id (example_watcher ''w1'') = ''w1''" by (simp add: example_watcher_def)
  have l0: "log close_fails_world = []"
    by (simp add: close_fails_world_def example_world_def)
  have e: "emit (ExecutingBatch (Suc 0) [''w1'']) close_fails_world
             = close_fails_world\<lparr>log := [ExecutingBatch 1 [''w1'']]\<rparr>"
    by (simp add: emit_def close_fails_world_def example_world_def)
  show ?thesis
    apply (subst run_batches.simps)
    apply (simp add: Let_def id e close_fails_run reason_message_def console_error_def emit_def l0)
    apply (subst run_batches.simps)
    apply simp
    done
qed

text \<open>
  C3, at a concrete input. In the world where everything succeeds except
  \<open>browser.close\<close>, the Watch Runner does not return a result: the rejection of
  \<open>cleanup\<close> in the \<open>finally\<close> block is what the call ends with, although the run
  itself had succeeded. The Batch Scheduler, run on the same world, does not abort: it
  records a failed result for the watcher, with the rejection's message and no
  execution time, and counts one failure in the summary.
\<close>

theorem executeScraper_rejects_when_close_fails:
  "executeScraper ''w1'' close_fails_world
     = (Inl (Error ''Protocol error: Browser.close''),
        close_fails_world\<lparr>reads := 2, playwright := [],
           log := [BrowserLaunched, PageOpened, PageWork ''w1'', PageCloseCalled,
                   BrowserCloseCalled]\<rparr>) \<and>
   handler 5 close_fails_world
     = Some (Inr (Some (\<lparr>totalScrapers = 1, successCount = 0, failedCount = 1,
                          summary_totalFound = 0, totalNew = 0, totalDrops = 0,
                          avgExecutionTime = 0\<rparr>,
                        [\<lparr>result_scraperId = ''w1'', success = False,
                          error = Some ''Protocol error: Browser.close'',
                          newListings = [], priceDrops = [], totalFound = 0,
                          executionTime = 0\<rparr>])),
             close_fails_world\<lparr>reads := 2, playwright := [],
               log := [ExecutingBatch 1 [''w1''], BrowserLaunched, PageOpened, PageWork ''w1'',
                       PageCloseCalled, BrowserCloseCalled, ConsoleError ''Scraper failed'']\<rparr>)"
proof
  show "executeScraper ''w1'' close_fails_world
     = (Inl (Error ''Protocol error: Browser.close''),
        close_fails_world\<lparr>reads := 2, playwright := [],
           log := [BrowserLaunched, PageOpened, PageWork ''w1'', PageCloseCalled,
                   BrowserCloseCalled]\<rparr>)"
    using close_fails_run [of "[]"] by (simp add: close_fails_plain)
  show "handler 5 close_fails_world
     = Some (Inr (Some (\<lparr>totalScrapers = 1, successCount = 0, failedCount = 1,
                          summary_totalFound = 0, totalNew = 0, totalDrops = 0,
                          avgExecutionTime = 0\<rparr>,
                        [\<lparr>result_scraperId = ''w1'', success = False,
                          error = Some ''Protocol error: Browser.close'',
                          newListings = [], priceDrops = [], totalFound = 0,
                          executionTime = 0\<rparr>])),
             close_fails_world\<lparr>reads := 2, playwright := [],
               log := [ExecutingBatch 1 [''w1''], BrowserLaunched, PageOpened, PageWork ''w1'',
                       PageCloseCalled, BrowserCloseCalled, ConsoleError ''Scraper failed'']\<rparr>)"
    by (simp add: handler_def close_fails_enabled close_fails_batches summarize_def)
qed

end
